theory Spec2Isabelle
  imports Main
begin

section \<open>JavaScript values, errors and host functions\<close>

text \<open>
  The event payload is a JSON document. Redis entry ids (the strings \<open><ms>-<seq>\<close>)
  are represented by the pair of their two numbers; the start id \<open>'0'\<close> is \<open>(0, 0)\<close>.
\<close>

datatype json =
    JNull
  | JBool bool
  | JNum int
  | JStr string
  | JArr "json list"
  | JObj "(string \<times> json) list"

datatype js_error =
    ReplyError string
  | TypeError string
  | SyntaxError string
  | DatabaseError string

fun message :: "js_error \<Rightarrow> string" where
  "message (ReplyError m) = m"
| "message (TypeError m) = m"
| "message (SyntaxError m) = m"
| "message (DatabaseError m) = m"

text \<open>\<open>String.prototype.includes\<close>: does \<open>sub\<close> occur in \<open>s\<close> as a contiguous substring.\<close>

fun str_includes :: "string \<Rightarrow> string \<Rightarrow> bool" where
  "str_includes [] sub = (sub = [])"
| "str_includes (c # cs) sub = (take (length sub) (c # cs) = sub \<or> str_includes cs sub)"

text \<open>
  The host's built-in functions the code calls and the repository does not define:
  \<open>JSON.parse\<close> (\<open>None\<close> is its SyntaxError), \<open>JSON.stringify\<close> and \<open>uuidv4\<close>
  (the n-th identifier it hands out).
\<close>

record host =
  JSON_parse :: "string \<Rightarrow> json option"
  JSON_stringify :: "json \<Rightarrow> string"
  uuidv4 :: "nat \<Rightarrow> string"

text \<open>The decimal text of a number, as the Redis client sends \<open>Date.now()\<close>.\<close>

definition digit_char :: "nat \<Rightarrow> char" where
  "digit_char d = ''0123456789'' ! d"

function show_nat :: "nat \<Rightarrow> string" where
  "show_nat n = (if n < 10 then [digit_char n] else show_nat (n div 10) @ [digit_char (n mod 10)])"
  by pat_completeness auto
termination
  by (relation "measure id") auto

declare show_nat.simps [simp del]

text \<open>
  Property access \<open>payload.name\<close>: reading a property of \<open>null\<close> throws a TypeError,
  an object answers with the first binding of the name, and every other value answers
  \<open>undefined\<close> (\<open>None\<close>) for the property names this code reads.
\<close>

fun get_prop :: "json \<Rightarrow> string \<Rightarrow> js_error + json option" where
  "get_prop JNull name = Inl (TypeError (''Cannot read properties of null (reading '' @ name @ '')''))"
| "get_prop (JObj kvs) name = Inr (map_of kvs name)"
| "get_prop v name = Inr None"

text \<open>JavaScript truthiness of a JSON value.\<close>

fun truthy :: "json \<Rightarrow> bool" where
  "truthy JNull = False"
| "truthy (JBool b) = b"
| "truthy (JNum n) = (n \<noteq> 0)"
| "truthy (JStr s) = (s \<noteq> [])"
| "truthy (JArr xs) = True"
| "truthy (JObj kvs) = True"

section \<open>The log store\<close>

type_synonym msg_id = "nat \<times> nat"

definition id_less :: "msg_id \<Rightarrow> msg_id \<Rightarrow> bool" where
  "id_less a b = (fst a < fst b \<or> (fst a = fst b \<and> snd a < snd b))"

record entry =
  entry_id :: msg_id
  entry_fields :: "string list"

record pending_entry =
  pend_id :: msg_id
  pend_consumer :: string
  deliveryCount :: nat
  lastDeliveryTime :: nat

record consumer_group =
  lastDeliveredId :: msg_id
  pendingEntries :: "pending_entry list"

record log =
  entries :: "entry list"
  groups :: "string \<rightharpoonup> consumer_group"

text \<open>
  Modelled from the spec: the state of the external log store (the Redis server), which
  is not part of the repository. It holds the named logs with their consumer groups
  (spec section 3), the keys that hold something other than a log, a store-wide fault
  (the spec's StoreUnavailable, with the message of the error every command then gets)
  and the server's clock in milliseconds.
\<close>

record log_store =
  logs :: "string \<rightharpoonup> log"
  foreign_keys :: "string set"
  fault :: "string option"
  server_time :: nat

type_synonym stream_messages = "string \<times> (msg_id \<times> string list) list"

definition wrongtype :: js_error where
  "wrongtype = ReplyError ''WRONGTYPE Operation against a key holding the wrong kind of value''"

text \<open>
  Modelled from the spec: the store refuses a command when it is unavailable or when the
  key is not a log; the store's command dispatcher is not part of the repository.
\<close>

definition refused :: "log_store \<Rightarrow> string \<Rightarrow> js_error option" where
  "refused st name =
     (case fault st of
        Some m \<Rightarrow> Some (ReplyError m)
      | None \<Rightarrow> if name \<in> foreign_keys st then Some wrongtype else None)"

definition empty_log :: log where
  "empty_log = \<lparr>entries = [], groups = Map.empty\<rparr>"

definition get_log :: "log_store \<Rightarrow> string \<Rightarrow> log" where
  "get_log st name = (case logs st name of None \<Rightarrow> empty_log | Some l \<Rightarrow> l)"

definition top_id :: "log \<Rightarrow> msg_id" where
  "top_id l = (if entries l = [] then (0, 0) else entry_id (last (entries l)))"

definition next_id :: "nat \<Rightarrow> msg_id \<Rightarrow> msg_id" where
  "next_id now t = (if fst t < now then (now, 0) else (fst t, Suc (snd t)))"

text \<open>
  Modelled from the spec: \<open>append(log, id_hint, field_list) \<rightarrow> id\<close> of the log store wire
  contract (Redis XADD, absent from the repository). The id hint \<open>None\<close> is the
  auto-assign request \<open>'*'\<close>: the store assigns the next id after the log's top id
  (spec section 3: ids are strictly increasing, producers never choose them except to
  request auto-assign). An explicit id must be greater than the top id.
\<close>

definition xadd :: "string \<Rightarrow> msg_id option \<Rightarrow> string list \<Rightarrow> log_store \<Rightarrow> (js_error + msg_id) \<times> log_store" where
  "xadd name hint fs st =
     (case refused st name of
        Some e \<Rightarrow> (Inl e, st)
      | None \<Rightarrow>
          let l = get_log st name;
              new = (case hint of None \<Rightarrow> next_id (server_time st) (top_id l) | Some i \<Rightarrow> i)
          in if id_less (top_id l) new
             then (Inr new,
                   st\<lparr>logs := (logs st)(name \<mapsto> l\<lparr>entries := entries l @ [\<lparr>entry_id = new, entry_fields = fs\<rparr>]\<rparr>)\<rparr>)
             else (Inl (ReplyError ''ERR The ID specified in XADD is equal or smaller than the target stream top item''), st))"

definition entries_after :: "log \<Rightarrow> msg_id \<Rightarrow> nat \<Rightarrow> (msg_id \<times> string list) list" where
  "entries_after l start n =
     map (\<lambda>e. (entry_id e, entry_fields e)) (take n (filter (\<lambda>e. id_less start (entry_id e)) (entries l)))"

text \<open>
  Modelled from the spec: the text of an entry id on the wire. The spec's MonotonicId is
  a pair of a millisecond timestamp and a sequence number; the Redis protocol, which
  is not part of the repository, writes it \<open><ms>-<seq>\<close> and also reads \<open><ms>\<close> alone as
  \<open><ms>-0\<close>, so that \<open>'0'\<close> is \<open>0-0\<close>.
\<close>

definition show_id :: "msg_id \<Rightarrow> string" where
  "show_id i = show_nat (fst i) @ ''-'' @ show_nat (snd i)"

definition digit_of :: "char \<Rightarrow> nat option" where
  "digit_of = map_of [(CHR ''0'', 0), (CHR ''1'', 1), (CHR ''2'', 2), (CHR ''3'', 3), (CHR ''4'', 4),
                      (CHR ''5'', 5), (CHR ''6'', 6), (CHR ''7'', 7), (CHR ''8'', 8), (CHR ''9'', 9)]"

fun parse_digits :: "string \<Rightarrow> nat \<Rightarrow> nat option" where
  "parse_digits [] acc = Some acc"
| "parse_digits (c # cs) acc =
     (case digit_of c of None \<Rightarrow> None | Some d \<Rightarrow> parse_digits cs (10 * acc + d))"

definition parse_nat :: "string \<Rightarrow> nat option" where
  "parse_nat s = (if s = [] then None else parse_digits s 0)"

definition parse_id :: "string \<Rightarrow> msg_id option" where
  "parse_id s =
     (case dropWhile (\<lambda>c. c \<noteq> CHR ''-'') s of
        [] \<Rightarrow> (case parse_nat s of None \<Rightarrow> None | Some ms \<Rightarrow> Some (ms, 0))
      | dash # rest \<Rightarrow>
          (case parse_nat (takeWhile (\<lambda>c. c \<noteq> CHR ''-'') s) of
             None \<Rightarrow> None
           | Some ms \<Rightarrow> (case parse_nat rest of None \<Rightarrow> None | Some sq \<Rightarrow> Some (ms, sq))))"

text \<open>
  Modelled from the spec: \<open>read_range(log, fromId, count) \<rightarrow> entries\<close> of the log store wire
  contract, one log of a read. The key must be a log (or absent) and the id must be the
  text of an id; the log contributes up to \<open>count\<close> entries strictly after the id, and
  is left out of the answer when it has nothing new.
\<close>

fun xread_each :: "nat \<Rightarrow> (string \<times> string) list \<Rightarrow> log_store \<Rightarrow> js_error + stream_messages list" where
  "xread_each n [] st = Inr []"
| "xread_each n (req # reqs) st =
     (case refused st (fst req) of
        Some e \<Rightarrow> Inl e
      | None \<Rightarrow>
          (case parse_id (snd req) of
             None \<Rightarrow> Inl (ReplyError ''ERR Invalid stream ID specified as stream command argument'')
           | Some start \<Rightarrow>
               (case xread_each n reqs st of
                  Inl e \<Rightarrow> Inl e
                | Inr found \<Rightarrow>
                    let new = entries_after (get_log st (fst req)) start n
                    in Inr (if new = [] then found else (fst req, new) # found))))"

text \<open>
  Modelled from the spec: the read command as the Redis protocol has it (XREAD COUNT n
  STREAMS followed by the arguments given here; absent from the repository). The
  arguments after STREAMS are all the keys followed by all the ids, so the first half of
  the list is taken as the keys and the second half as their ids. The answer is \<open>null\<close>
  (\<open>None\<close>) when no log has anything new. Reading changes nothing in the store.
\<close>

definition xread :: "nat \<Rightarrow> string list \<Rightarrow> log_store \<Rightarrow> js_error + stream_messages list option" where
  "xread n args st =
     (case fault st of
        Some m \<Rightarrow> Inl (ReplyError m)
      | None \<Rightarrow>
          if odd (length args)
          then Inl (ReplyError ''ERR Unbalanced XREAD list of streams: for each stream key an ID must be specified.'')
          else (case xread_each n (zip (take (length args div 2) args) (drop (length args div 2) args)) st of
                  Inl e \<Rightarrow> Inl e
                | Inr found \<Rightarrow> Inr (if found = [] then None else Some found)))"

text \<open>
  Modelled from the spec: the length of a log, the \<open>length\<close> of the wire contract's
  \<open>introspect\<close> (Redis XLEN, absent from the repository); a log that does not exist has
  length 0.
\<close>

definition xlen :: "string \<Rightarrow> log_store \<Rightarrow> js_error + nat" where
  "xlen name st =
     (case refused st name of
        Some e \<Rightarrow> Inl e
      | None \<Rightarrow> Inr (length (entries (get_log st name))))"

text \<open>
  Modelled from the spec: \<open>create_group(log, group, startId) \<rightarrow> ok | already_exists\<close> of the
  log store wire contract (Redis XGROUP CREATE with MKSTREAM, absent from the
  repository). A missing log is created empty; an existing group is reported with a
  BUSYGROUP error and left as it is; a new group starts with its cursor at the start id
  and nothing pending.
\<close>

definition xgroup_create :: "string \<Rightarrow> string \<Rightarrow> msg_id \<Rightarrow> log_store \<Rightarrow> (js_error + unit) \<times> log_store" where
  "xgroup_create name g start st =
     (case refused st name of
        Some e \<Rightarrow> (Inl e, st)
      | None \<Rightarrow>
          let l = get_log st name
          in if groups l g \<noteq> None
             then (Inl (ReplyError ''BUSYGROUP Consumer Group name already exists''), st)
             else (Inr (),
                   st\<lparr>logs := (logs st)(name \<mapsto>
                          l\<lparr>groups := (groups l)(g \<mapsto> \<lparr>lastDeliveredId = start, pendingEntries = []\<rparr>)\<rparr>)\<rparr>))"

text \<open>
  Modelled from the spec: \<open>group_claim(log, group, consumer, count, timeoutMs) \<rightarrow> entries\<close>
  of the log store wire contract (Redis XREADGROUP with the id \<open>'>'\<close>, absent from the
  repository), following \<open>claimNext\<close> of spec section 4.2: up to \<open>count\<close> entries strictly
  after \<open>lastDeliveredId\<close>, each marked pending for the consumer with delivery count 1,
  and \<open>lastDeliveredId\<close> advanced to the last one. With nothing to deliver the call
  answers \<open>null\<close> once the block time is over. A missing log or group is a NOGROUP error.
\<close>

definition xreadgroup :: "string \<Rightarrow> string \<Rightarrow> nat \<Rightarrow> nat \<Rightarrow> string \<Rightarrow> log_store \<Rightarrow> (js_error + stream_messages list option) \<times> log_store" where
  "xreadgroup g consumer n blockTime name st =
     (case refused st name of
        Some e \<Rightarrow> (Inl e, st)
      | None \<Rightarrow>
          (case logs st name of
             None \<Rightarrow> (Inl (ReplyError ''NOGROUP No such key or consumer group''), st)
           | Some l \<Rightarrow>
               (case groups l g of
                  None \<Rightarrow> (Inl (ReplyError ''NOGROUP No such key or consumer group''), st)
                | Some grp \<Rightarrow>
                    let new = entries_after l (lastDeliveredId grp) n
                    in if new = [] then (Inr None, st)
                       else (Inr (Some [(name, new)]),
                             st\<lparr>logs := (logs st)(name \<mapsto>
                                  l\<lparr>groups := (groups l)(g \<mapsto>
                                       \<lparr>lastDeliveredId = fst (last new),
                                        pendingEntries = pendingEntries grp @
                                          map (\<lambda>m. \<lparr>pend_id = fst m, pend_consumer = consumer,
                                                     deliveryCount = 1,
                                                     lastDeliveryTime = server_time st\<rparr>) new\<rparr>)\<rparr>)\<rparr>))))"

text \<open>
  Modelled from the spec: \<open>ack(log, group, entryId) \<rightarrow> count_removed\<close> of the log store
  wire contract (Redis XACK, absent from the repository), following \<open>acknowledge\<close> of
  spec section 4.2: the entry is removed from the group's pending entries if present;
  an id that is not pending, or a log or group that does not exist, answers 0.
\<close>

definition xack :: "string \<Rightarrow> string \<Rightarrow> msg_id \<Rightarrow> log_store \<Rightarrow> (js_error + nat) \<times> log_store" where
  "xack name g i st =
     (case refused st name of
        Some e \<Rightarrow> (Inl e, st)
      | None \<Rightarrow>
          (case logs st name of
             None \<Rightarrow> (Inr 0, st)
           | Some l \<Rightarrow>
               (case groups l g of
                  None \<Rightarrow> (Inr 0, st)
                | Some grp \<Rightarrow>
                    (Inr (length (filter (\<lambda>p. pend_id p = i) (pendingEntries grp))),
                     st\<lparr>logs := (logs st)(name \<mapsto>
                          l\<lparr>groups := (groups l)(g \<mapsto>
                               grp\<lparr>pendingEntries := filter (\<lambda>p. pend_id p \<noteq> i) (pendingEntries grp)\<rparr>)\<rparr>)\<rparr>))))"

section \<open>The process's world and promises\<close>

text \<open>
  The lines the code writes to the console that matter here, one constructor for each
  \<open>console.log\<close> or \<open>console.error\<close> statement of the source.
\<close>

datatype log_line =
    Added string string msg_id
  | AddError string js_error
  | ReadError string js_error
  | ReadStreamsError js_error
  | GroupCreated string string
  | GroupExists string string
  | GroupCreateError string js_error
  | GroupReadError string js_error
  | Acknowledged msg_id string
  | AckError msg_id js_error
  | Processing msg_id string "string option"
  | Processed msg_id
  | ProcessingError msg_id js_error
  | SaveError js_error
  | MarkError js_error
  | UpdateError js_error
  | HandlerInfo string
  | UnknownEventType "string option"
  | Starting string
  | LoopError string js_error
  | Stopping string

text \<open>A row of the \<open>events\<close> table (models/Event.js); \<open>userId = None\<close> is SQL NULL.\<close>

record event_row =
  streamId :: msg_id
  row_eventType :: string
  row_payload :: json
  processed :: bool
  processedAt :: "nat option"
  row_consumerId :: string
  userId :: "json option"
  row_error :: "string option"

text \<open>
  Everything outside the process that its code reads or changes: the log store, the
  \<open>events\<close> table with the database's verdict on an insert (\<open>Some m\<close>: the insert is
  rejected with message \<open>m\<close>) and on an update, the process clock behind \<open>Date.now()\<close>,
  the number of identifiers \<open>uuidv4\<close> has handed out, the console, and the durations
  of the polling loops' \<open>sleep\<close> calls.
\<close>

record world =
  redis :: log_store
  events :: "event_row list"
  db_rejects :: "event_row \<Rightarrow> string option"
  db_update_fault :: "string option"
  clock :: nat
  uuid_counter :: nat
  console :: "log_line list"
  backoffs :: "nat list"

text \<open>
  An awaited promise: rejected with an error (\<open>Inl\<close>) or fulfilled with a value, together
  with the state (the world, or a loop's variables and the world) it leaves behind. \<open>await\<close> continues after a fulfilled promise and
  propagates a rejection; \<open>try_catch\<close> runs the handler on a rejection.
\<close>

type_synonym 'a promise = "(js_error + 'a) \<times> world"

definition await :: "(js_error + 'a) \<times> 's \<Rightarrow> ('a \<Rightarrow> 's \<Rightarrow> (js_error + 'b) \<times> 's) \<Rightarrow> (js_error + 'b) \<times> 's" where
  "await m f = (case m of (Inl e, w) \<Rightarrow> (Inl e, w) | (Inr x, w) \<Rightarrow> f x w)"

definition try_catch :: "(js_error + 'a) \<times> 's \<Rightarrow> (js_error \<Rightarrow> 's \<Rightarrow> (js_error + 'a) \<times> 's) \<Rightarrow> (js_error + 'a) \<times> 's" where
  "try_catch m handler = (case m of (Inl e, w) \<Rightarrow> handler e w | (Inr x, w) \<Rightarrow> (Inr x, w))"

definition log_to :: "log_line \<Rightarrow> world \<Rightarrow> world" where
  "log_to l w = w\<lparr>console := console w @ [l]\<rparr>"

text \<open>A command sent through the Redis client: the store's reply, and the store it leaves.\<close>

definition redis_call :: "(log_store \<Rightarrow> (js_error + 'a) \<times> log_store) \<Rightarrow> world \<Rightarrow> 'a promise" where
  "redis_call cmd w = (case cmd (redis w) of (r, st) \<Rightarrow> (r, w\<lparr>redis := st\<rparr>))"

section \<open>utils/streamUtils\<close>

definition USER_CREATED :: string where "USER_CREATED = ''user.created''"
definition USER_UPDATED :: string where "USER_UPDATED = ''user.updated''"
definition USER_DELETED :: string where "USER_DELETED = ''user.deleted''"
definition MESSAGE_SENT :: string where "MESSAGE_SENT = ''message.sent''"
definition TASK_CREATED :: string where "TASK_CREATED = ''task.created''"
definition TASK_COMPLETED :: string where "TASK_COMPLETED = ''task.completed''"
definition SYSTEM_ERROR :: string where "SYSTEM_ERROR = ''system.error''"
definition SYSTEM_INFO :: string where "SYSTEM_INFO = ''system.info''"

text \<open>
  \<open>addToStream(streamName, eventType, payload, id = '*')\<close>; the id \<open>None\<close> is \<open>'*'\<close>.
  The field list is built before the command is sent, so \<open>uuidv4\<close> is consumed even when
  the store rejects the append.
\<close>

definition addToStream :: "host \<Rightarrow> string \<Rightarrow> string \<Rightarrow> json \<Rightarrow> msg_id option \<Rightarrow> world \<Rightarrow> msg_id promise" where
  "addToStream h streamName eventType payload hint w =
     (let fs = [''eventType'', eventType,
                ''payload'', JSON_stringify h payload,
                ''timestamp'', show_nat (clock w),
                ''id'', uuidv4 h (uuid_counter w)];
          w1 = w\<lparr>uuid_counter := Suc (uuid_counter w)\<rparr>
      in try_catch
           (await (redis_call (xadd streamName hint fs) w1)
              (\<lambda>messageId w2. (Inr messageId, log_to (Added streamName eventType messageId) w2)))
           (\<lambda>error w2. (Inl error, log_to (AddError streamName error) w2)))"

text \<open>\<open>readFromStream(streamName, startId = '0', count = 10)\<close>: \<open>result || []\<close>.\<close>

definition readFromStream :: "string \<Rightarrow> msg_id \<Rightarrow> nat \<Rightarrow> world \<Rightarrow> stream_messages list promise" where
  "readFromStream streamName startId n w =
     try_catch
       (await (xread n [streamName, show_id startId] (redis w), w)
          (\<lambda>result w1. (Inr (case result of None \<Rightarrow> [] | Some r \<Rightarrow> r), w1)))
       (\<lambda>error w1. (Inl error, log_to (ReadError streamName error) w1))"

text \<open>The \<open>for\<close> loop of \<open>readFromStreams\<close> that keeps the streams of length above 0.\<close>

fun existingStreams :: "(string \<times> msg_id) list \<Rightarrow> world \<Rightarrow> (string \<times> msg_id) list promise" where
  "existingStreams [] w = (Inr [], w)"
| "existingStreams (s # ss) w =
     await (xlen (fst s) (redis w), w)
       (\<lambda>len w1. await (existingStreams ss w1)
          (\<lambda>rest w2. (Inr (if len > 0 then s # rest else rest), w2)))"

text \<open>
  \<open>readFromStreams(streams, count = 10)\<close>, the streams as pairs of name and id. The
  arguments of the read are \<open>existingStreams.flatMap(s => [s.name, s.id])\<close>: each name
  followed by its id.
\<close>

definition readFromStreams :: "(string \<times> msg_id) list \<Rightarrow> nat \<Rightarrow> world \<Rightarrow> stream_messages list promise" where
  "readFromStreams streams n w =
     try_catch
       (await (existingStreams streams w)
          (\<lambda>existing w1.
             if length existing = 0 then (Inr [], w1)
             else await (xread n (concat (map (\<lambda>s. [fst s, show_id (snd s)]) existing)) (redis w1), w1)
                    (\<lambda>result w2. (Inr (case result of None \<Rightarrow> [] | Some r \<Rightarrow> r), w2))))
       (\<lambda>error w1. (Inl error, log_to (ReadStreamsError error) w1))"

text \<open>\<open>createConsumerGroup(streamName, groupName, startId = '0')\<close>.\<close>

definition createConsumerGroup :: "string \<Rightarrow> string \<Rightarrow> msg_id \<Rightarrow> world \<Rightarrow> bool promise" where
  "createConsumerGroup streamName groupName startId w =
     try_catch
       (await (redis_call (xgroup_create streamName groupName startId) w)
          (\<lambda>_ w1. (Inr True, log_to (GroupCreated groupName streamName) w1)))
       (\<lambda>error w1.
          if str_includes (message error) ''BUSYGROUP''
          then (Inr True, log_to (GroupExists groupName streamName) w1)
          else (Inl error, log_to (GroupCreateError groupName error) w1))"

text \<open>\<open>readFromConsumerGroup(streamName, groupName, consumerName, count = 1, blockTime = 0)\<close>.\<close>

definition readFromConsumerGroup :: "string \<Rightarrow> string \<Rightarrow> string \<Rightarrow> nat \<Rightarrow> nat \<Rightarrow> world \<Rightarrow> stream_messages list promise" where
  "readFromConsumerGroup streamName groupName consumerName n blockTime w =
     try_catch
       (await (redis_call (xreadgroup groupName consumerName n blockTime streamName) w)
          (\<lambda>result w1. (Inr (case result of None \<Rightarrow> [] | Some r \<Rightarrow> r), w1)))
       (\<lambda>error w1. (Inl error, log_to (GroupReadError groupName error) w1))"

text \<open>\<open>acknowledgeMessage(streamName, groupName, messageId)\<close>.\<close>

definition acknowledgeMessage :: "string \<Rightarrow> string \<Rightarrow> msg_id \<Rightarrow> world \<Rightarrow> nat promise" where
  "acknowledgeMessage streamName groupName messageId w =
     try_catch
       (await (redis_call (xack streamName groupName messageId) w)
          (\<lambda>result w1. (Inr result, log_to (Acknowledged messageId groupName) w1)))
       (\<lambda>error w1. (Inl error, log_to (AckError messageId error) w1))"

section \<open>services/producer\<close>

record publish_event =
  ev_streamName :: string
  ev_eventType :: string
  ev_payload :: json

text \<open>
  \<open>events.map(event => addToStream(...))\<close>: every append is started, in order, and each
  promise settles on its own.
\<close>

fun append_each :: "host \<Rightarrow> publish_event list \<Rightarrow> world \<Rightarrow> (js_error + msg_id) list \<times> world" where
  "append_each h [] w = ([], w)"
| "append_each h (e # es) w =
     (case addToStream h (ev_streamName e) (ev_eventType e) (ev_payload e) None w of
        (r, w1) \<Rightarrow> (case append_each h es w1 of (rs, w2) \<Rightarrow> (r # rs, w2)))"

text \<open>
  \<open>Promise.all\<close>: fulfilled with the list of all values when every promise is fulfilled,
  rejected with the first rejection otherwise (the store answers in the order of the
  requests).
\<close>

fun Promise_all :: "(js_error + 'a) list \<Rightarrow> js_error + 'a list" where
  "Promise_all [] = Inr []"
| "Promise_all (Inl e # rs) = Inl e"
| "Promise_all (Inr x # rs) = (case Promise_all rs of Inl e \<Rightarrow> Inl e | Inr xs \<Rightarrow> Inr (x # xs))"

text \<open>\<open>ProducerService.batchPublish(events)\<close>.\<close>

definition batchPublish :: "host \<Rightarrow> publish_event list \<Rightarrow> world \<Rightarrow> msg_id list promise" where
  "batchPublish h evs w = (case append_each h evs w of (rs, w1) \<Rightarrow> (Promise_all rs, w1))"

section \<open>models/Event\<close>

text \<open>
  \<open>Event.create\<close>: \<open>eventType\<close> and \<open>payload\<close> are declared \<open>allowNull: false\<close>, so an
  undefined event type or a null payload is a validation error; otherwise the database
  decides. The generated primary key and the \<open>createdAt\<close>/\<open>updatedAt\<close> columns are left
  out.
\<close>

definition Event_create :: "msg_id \<Rightarrow> string option \<Rightarrow> json \<Rightarrow> string \<Rightarrow> json option \<Rightarrow> world \<Rightarrow> unit promise" where
  "Event_create sid eventType payload cid uid w =
     (case eventType of
        None \<Rightarrow> (Inl (DatabaseError ''notNull Violation: Event.eventType cannot be null''), w)
      | Some t \<Rightarrow>
          if payload = JNull
          then (Inl (DatabaseError ''notNull Violation: Event.payload cannot be null''), w)
          else
            let row = \<lparr>streamId = sid, row_eventType = t, row_payload = payload, processed = False,
                       processedAt = None, row_consumerId = cid, userId = uid, row_error = None\<rparr>
            in (case db_rejects w row of
                  Some m \<Rightarrow> (Inl (DatabaseError m), w)
                | None \<Rightarrow> (Inr (), w\<lparr>events := events w @ [row]\<rparr>)))"

text \<open>\<open>Event.update(values, { where: { streamId } })\<close>, the values as a change of a row.\<close>

definition Event_update :: "(event_row \<Rightarrow> event_row) \<Rightarrow> msg_id \<Rightarrow> world \<Rightarrow> unit promise" where
  "Event_update change sid w =
     (case db_update_fault w of
        Some m \<Rightarrow> (Inl (DatabaseError m), w)
      | None \<Rightarrow> (Inr (), w\<lparr>events := map (\<lambda>r. if streamId r = sid then change r else r) (events w)\<rparr>))"

section \<open>Members the two consumer classes share\<close>

text \<open>
  \<open>parseMessageFields\<close>, \<open>markEventAsProcessed\<close>, \<open>handleProcessingError\<close> and the
  \<open>switch\<close> of \<open>handleEvent\<close> are the same text in ConsumerService and
  ConsumerGroupService; the eight handlers have the same \<open>console.log\<close> statements
  with the same uses of the payload, and differ in a prefix with the consumer's name
  and in a simulated delay, neither of which is represented. \<open>saveEventToDatabase\<close> differs
  in the consumer id it stores, which is a parameter here.
\<close>

text \<open>
  The loop of \<open>parseMessageFields\<close> over the flat field list: a later binding of a key
  replaces an earlier one, and a key without a value is bound to \<open>undefined\<close>.
\<close>

fun collect_fields :: "string list \<Rightarrow> (string \<rightharpoonup> string) \<Rightarrow> (string \<rightharpoonup> string)" where
  "collect_fields (k # v # rest) d = collect_fields rest (d(k \<mapsto> v))"
| "collect_fields [k] d = d(k := None)"
| "collect_fields [] d = d"

text \<open>
  Of the object \<open>parseMessageFields\<close> returns, its callers read \<open>eventType\<close> and
  \<open>payload\<close>; \<open>timestamp\<close> and \<open>id\<close> are computed without a possible exception and never
  read, and are left out.
\<close>

record message_data =
  md_eventType :: "string option"
  md_payload :: json

definition parseMessageFields :: "host \<Rightarrow> string list \<Rightarrow> js_error + message_data" where
  "parseMessageFields h fs =
     (let d = collect_fields fs Map.empty;
          text = (case d ''payload'' of None \<Rightarrow> ''{}'' | Some p \<Rightarrow> if p = [] then ''{}'' else p)
      in case JSON_parse h text of
           None \<Rightarrow> Inl (SyntaxError ''Unexpected token in JSON'')
         | Some p \<Rightarrow> Inr \<lparr>md_eventType = d ''eventType'', md_payload = p\<rparr>)"

text \<open>\<open>saveEventToDatabase\<close>: \<open>const userId = payload.userId || null\<close>, then \<open>Event.create\<close>.\<close>

definition saveEventToDatabase :: "string \<Rightarrow> string \<Rightarrow> msg_id \<Rightarrow> string option \<Rightarrow> json \<Rightarrow> world \<Rightarrow> unit promise" where
  "saveEventToDatabase cid streamName messageId eventType payload w =
     try_catch
       (await (get_prop payload ''userId'', w)
          (\<lambda>u w1.
             let uid = (case u of None \<Rightarrow> None | Some v \<Rightarrow> if truthy v then Some v else None)
             in Event_create messageId eventType payload cid uid w1))
       (\<lambda>error w1. (Inl error, log_to (SaveError error) w1))"

text \<open>
  The conversion of a value to a string that a template literal makes of each of its
  substitutions. It throws a TypeError for an object that has a property \<open>toString\<close> of
  its own (no value of a JSON document is callable, and \<open>valueOf\<close> returns the object),
  and for an array with such an element, as the elements are converted in turn;
  everything else has a string.
\<close>

fun converts_to_string :: "json \<Rightarrow> bool" where
  "converts_to_string (JObj kvs) = (map_of kvs ''toString'' = None)"
| "converts_to_string (JArr xs) = (\<forall>x \<in> set xs. converts_to_string x)"
| "converts_to_string v = True"

text \<open>
  How a \<open>console.log\<close> statement of a handler uses a property of the payload: inside a
  template literal, where it is converted to a string, or as an argument of its own,
  which the console prints without converting it.
\<close>

datatype use = Interpolated string | Argument string

fun use_props :: "json \<Rightarrow> use list \<Rightarrow> js_error + unit" where
  "use_props payload [] = Inr ()"
| "use_props payload (Interpolated name # us) =
     (case get_prop payload name of
        Inl e \<Rightarrow> Inl e
      | Inr None \<Rightarrow> use_props payload us
      | Inr (Some v) \<Rightarrow>
          if converts_to_string v then use_props payload us
          else Inl (TypeError ''Cannot convert object to primitive value''))"
| "use_props payload (Argument name # us) =
     (case get_prop payload name of Inl e \<Rightarrow> Inl e | Inr v \<Rightarrow> use_props payload us)"

text \<open>
  One \<open>console.log\<close> (or \<open>console.error\<close>) statement of a handler: its arguments are
  evaluated from left to right, and the line is written if none of them throws.
\<close>

definition console_log :: "use list \<Rightarrow> string \<Rightarrow> json \<Rightarrow> world \<Rightarrow> unit promise" where
  "console_log uses line payload w =
     (case use_props payload uses of
        Inl e \<Rightarrow> (Inl e, w)
      | Inr _ \<Rightarrow> (Inr (), log_to (HandlerInfo line) w))"

definition handleUserCreated :: "json \<Rightarrow> world \<Rightarrow> unit promise" where
  "handleUserCreated payload w =
     console_log [Interpolated ''username'', Interpolated ''email''] ''User created'' payload w"

definition handleUserUpdated :: "json \<Rightarrow> world \<Rightarrow> unit promise" where
  "handleUserUpdated payload w =
     await (console_log [Interpolated ''username''] ''User updated'' payload w)
       (\<lambda>_ w1. console_log [Argument ''changes''] ''Changes'' payload w1)"

definition handleUserDeleted :: "json \<Rightarrow> world \<Rightarrow> unit promise" where
  "handleUserDeleted payload w =
     console_log [Interpolated ''username''] ''User deleted'' payload w"

definition handleMessageSent :: "json \<Rightarrow> world \<Rightarrow> unit promise" where
  "handleMessageSent payload w =
     await (console_log [Interpolated ''senderId'', Interpolated ''receiverId''] ''Message sent'' payload w)
       (\<lambda>_ w1. console_log [Interpolated ''content''] ''Content'' payload w1)"

definition handleTaskCreated :: "json \<Rightarrow> world \<Rightarrow> unit promise" where
  "handleTaskCreated payload w =
     await (console_log [Interpolated ''title''] ''Task created'' payload w)
       (\<lambda>_ w1. console_log [Interpolated ''assignedTo''] ''Assigned to'' payload w1)"

definition handleTaskCompleted :: "json \<Rightarrow> world \<Rightarrow> unit promise" where
  "handleTaskCompleted payload w =
     await (console_log [Interpolated ''taskId''] ''Task completed'' payload w)
       (\<lambda>_ w1. console_log [Interpolated ''completedBy''] ''Completed by'' payload w1)"

definition handleSystemError :: "json \<Rightarrow> world \<Rightarrow> unit promise" where
  "handleSystemError payload w =
     await (console_log [Interpolated ''message''] ''System Error'' payload w)
       (\<lambda>_ w1. console_log [Argument ''metadata''] ''Metadata'' payload w1)"

definition handleSystemInfo :: "json \<Rightarrow> world \<Rightarrow> unit promise" where
  "handleSystemInfo payload w =
     console_log [Interpolated ''message''] ''System Info'' payload w"

text \<open>The \<open>switch (eventType)\<close> of \<open>handleEvent\<close>, with its \<open>default\<close> branch last.\<close>

definition handleEvent_switch :: "string option \<Rightarrow> json \<Rightarrow> world \<Rightarrow> unit promise" where
  "handleEvent_switch eventType payload w =
     (if eventType = Some USER_CREATED then handleUserCreated payload w
      else if eventType = Some USER_UPDATED then handleUserUpdated payload w
      else if eventType = Some USER_DELETED then handleUserDeleted payload w
      else if eventType = Some MESSAGE_SENT then handleMessageSent payload w
      else if eventType = Some TASK_CREATED then handleTaskCreated payload w
      else if eventType = Some TASK_COMPLETED then handleTaskCompleted payload w
      else if eventType = Some SYSTEM_ERROR then handleSystemError payload w
      else if eventType = Some SYSTEM_INFO then handleSystemInfo payload w
      else (Inr (), log_to (UnknownEventType eventType) w))"

text \<open>\<open>markEventAsProcessed(messageId)\<close>: a database error is logged, not thrown.\<close>

definition markEventAsProcessed :: "msg_id \<Rightarrow> world \<Rightarrow> unit promise" where
  "markEventAsProcessed messageId w =
     try_catch
       (Event_update (\<lambda>r. r\<lparr>processed := True, processedAt := Some (clock w)\<rparr>) messageId w)
       (\<lambda>error w1. (Inr (), log_to (MarkError error) w1))"

text \<open>\<open>handleProcessingError(streamName, messageId, error)\<close>: likewise.\<close>

definition handleProcessingError :: "string \<Rightarrow> msg_id \<Rightarrow> js_error \<Rightarrow> world \<Rightarrow> unit promise" where
  "handleProcessingError streamName messageId error w =
     try_catch
       (Event_update (\<lambda>r. r\<lparr>row_error := Some (message error), processedAt := Some (clock w)\<rparr>) messageId w)
       (\<lambda>dbError w1. (Inr (), log_to (UpdateError dbError) w1))"

text \<open>\<open>sleep(ms)\<close> of the polling loops.\<close>

definition sleep :: "nat \<Rightarrow> world \<Rightarrow> unit promise" where
  "sleep ms w = (Inr (), w\<lparr>backoffs := backoffs w @ [ms]\<rparr>)"

section \<open>Polling loops\<close>

text \<open>
  A polling loop runs until \<open>this.isRunning\<close> is false, which only \<open>stop()\<close> does, from
  outside, while the loop is suspended at an \<open>await\<close>. What the rest of the system does
  during one iteration is a \<open>tick\<close>: whether \<open>stop()\<close> was called, and how the world
  changed (other producers and consumers, the store or the database failing or
  recovering). A tick stands for an iteration that runs to its end. The loop is run
  against a list of ticks; when the list is used up the loop is still running. Its outcome is the state it is in then, the state it exited
  in, or the error it threw.
\<close>

record tick =
  stop_called :: bool
  external :: "world \<Rightarrow> world"

datatype 's outcome = StillRunning 's | Stopped 's | Thrown js_error 's

fun while_isRunning :: "('s \<Rightarrow> bool) \<Rightarrow> ('s \<Rightarrow> (js_error + unit) \<times> 's) \<Rightarrow> (tick \<Rightarrow> 's \<Rightarrow> 's) \<Rightarrow> tick list \<Rightarrow> 's \<Rightarrow> 's outcome" where
  "while_isRunning running body interrupt [] s = (if running s then StillRunning s else Stopped s)"
| "while_isRunning running body interrupt (t # ts) s =
     (if \<not> running s then Stopped s
      else (case body s of
              (Inl e, s1) \<Rightarrow> Thrown e s1
            | (Inr _, s1) \<Rightarrow> while_isRunning running body interrupt ts (interrupt t s1)))"

text \<open>The frame of a running service method: the object, the method's variables, the world.\<close>

record ('t, 'v) frame =
  this :: 't
  vars :: 'v
  env :: world

definition in_world :: "(world \<Rightarrow> 'a promise) \<Rightarrow> ('t, 'v) frame \<Rightarrow> (js_error + 'a) \<times> ('t, 'v) frame" where
  "in_world f fr = (case f (env fr) of (r, w) \<Rightarrow> (r, fr\<lparr>env := w\<rparr>))"

section \<open>services/consumerGroup\<close>

record consumer_group_service =
  groupName :: string
  consumerName :: string
  isRunning :: bool
  streams :: "string list"

definition ConsumerGroupService :: "string \<Rightarrow> string \<Rightarrow> consumer_group_service" where
  "ConsumerGroupService g c = \<lparr>groupName = g, consumerName = c, isRunning = False, streams = []\<rparr>"

text \<open>\<open>initializeGroup(streamName, startId = '0')\<close>.\<close>

definition initializeGroup :: "string \<Rightarrow> msg_id \<Rightarrow> (consumer_group_service, unit) frame \<Rightarrow> (js_error + unit) \<times> (consumer_group_service, unit) frame" where
  "initializeGroup streamName startId fr =
     await (in_world (createConsumerGroup streamName (groupName (this fr)) startId) fr)
       (\<lambda>_ fr1. (Inr (), fr1\<lparr>this := (this fr1)\<lparr>streams := streams (this fr1) @ [streamName]\<rparr>\<rparr>))"

text \<open>\<open>ConsumerGroupService.handleEvent\<close>: the switch and nothing else.\<close>

definition ConsumerGroupService_handleEvent :: "string option \<Rightarrow> json \<Rightarrow> string \<Rightarrow> msg_id \<Rightarrow> world \<Rightarrow> unit promise" where
  "ConsumerGroupService_handleEvent eventType payload streamName messageId w =
     handleEvent_switch eventType payload w"

text \<open>
  The first three steps of the \<open>try\<close> block of \<open>ConsumerGroupService.processMessage\<close>,
  the handling of the message: parse the fields, save the event, handle it.
\<close>

definition ConsumerGroupService_handle :: "host \<Rightarrow> consumer_group_service \<Rightarrow> string \<Rightarrow> msg_id \<Rightarrow> string list \<Rightarrow> world \<Rightarrow> unit promise" where
  "ConsumerGroupService_handle h svc streamName messageId fs w =
     await (parseMessageFields h fs, w) (\<lambda>messageData w1.
       await (saveEventToDatabase (groupName svc @ '':'' @ consumerName svc) streamName messageId
                (md_eventType messageData) (md_payload messageData)
                (log_to (Processing messageId streamName (md_eventType messageData)) w1)) (\<lambda>_ w2.
         ConsumerGroupService_handleEvent (md_eventType messageData) (md_payload messageData)
           streamName messageId w2))"

text \<open>
  \<open>ConsumerGroupService.processMessage(streamName, messageId, fields)\<close>: the handling,
  then the acknowledgement and the mark in the database; the \<open>catch\<close> block records
  the error and does not acknowledge.
\<close>

definition ConsumerGroupService_processMessage :: "host \<Rightarrow> consumer_group_service \<Rightarrow> string \<Rightarrow> msg_id \<Rightarrow> string list \<Rightarrow> world \<Rightarrow> unit promise" where
  "ConsumerGroupService_processMessage h svc streamName messageId fs w =
     try_catch
       (await (ConsumerGroupService_handle h svc streamName messageId fs w) (\<lambda>_ w3.
          await (acknowledgeMessage streamName (groupName svc) messageId w3) (\<lambda>_ w4.
            await (markEventAsProcessed messageId w4) (\<lambda>_ w5.
              (Inr (), log_to (Processed messageId) w5)))))
       (\<lambda>error w1.
          handleProcessingError streamName messageId error (log_to (ProcessingError messageId error) w1))"

text \<open>The two nested \<open>for\<close> loops of \<open>ConsumerGroupService.startConsuming\<close>.\<close>

fun ConsumerGroupService_each_message :: "host \<Rightarrow> consumer_group_service \<Rightarrow> string \<Rightarrow> (msg_id \<times> string list) list \<Rightarrow> world \<Rightarrow> unit promise" where
  "ConsumerGroupService_each_message h svc stream [] w = (Inr (), w)"
| "ConsumerGroupService_each_message h svc stream (m # ms) w =
     await (ConsumerGroupService_processMessage h svc stream (fst m) (snd m) w)
       (\<lambda>_ w1. ConsumerGroupService_each_message h svc stream ms w1)"

fun ConsumerGroupService_each_stream :: "host \<Rightarrow> consumer_group_service \<Rightarrow> stream_messages list \<Rightarrow> world \<Rightarrow> unit promise" where
  "ConsumerGroupService_each_stream h svc [] w = (Inr (), w)"
| "ConsumerGroupService_each_stream h svc (sm # sms) w =
     await (ConsumerGroupService_each_message h svc (fst sm) (snd sm) w)
       (\<lambda>_ w1. ConsumerGroupService_each_stream h svc sms w1)"

text \<open>The body of the \<open>while\<close> loop of \<open>ConsumerGroupService.startConsuming\<close>.\<close>

definition ConsumerGroupService_poll :: "host \<Rightarrow> string \<Rightarrow> nat \<Rightarrow> nat \<Rightarrow> (consumer_group_service, unit) frame \<Rightarrow> (js_error + unit) \<times> (consumer_group_service, unit) frame" where
  "ConsumerGroupService_poll h streamName batchSize blockTime fr =
     try_catch
       (await (in_world (readFromConsumerGroup streamName (groupName (this fr)) (consumerName (this fr))
                           batchSize blockTime) fr)
          (\<lambda>messages fr1.
             if length messages > 0
             then in_world (ConsumerGroupService_each_stream h (this fr1) messages) fr1
             else (Inr (), fr1)))
       (\<lambda>error fr1.
          in_world (\<lambda>w. sleep 1000 (log_to (LoopError (groupName (this fr1)) error) w)) fr1)"

text \<open>\<open>ConsumerGroupService.stop()\<close>.\<close>

definition ConsumerGroupService_stop :: "(consumer_group_service, 'v) frame \<Rightarrow> (consumer_group_service, 'v) frame" where
  "ConsumerGroupService_stop fr =
     fr\<lparr>this := (this fr)\<lparr>isRunning := False\<rparr>, env := log_to (Stopping (groupName (this fr))) (env fr)\<rparr>"

definition ConsumerGroupService_interrupt :: "tick \<Rightarrow> (consumer_group_service, 'v) frame \<Rightarrow> (consumer_group_service, 'v) frame" where
  "ConsumerGroupService_interrupt t fr =
     (let fr1 = fr\<lparr>env := external t (env fr)\<rparr>
      in if stop_called t then ConsumerGroupService_stop fr1 else fr1)"

text \<open>\<open>ConsumerGroupService.startConsuming(streamName, batchSize = 1, blockTime = 1000)\<close>.\<close>

definition ConsumerGroupService_startConsuming :: "host \<Rightarrow> string \<Rightarrow> nat \<Rightarrow> nat \<Rightarrow> tick list \<Rightarrow> consumer_group_service \<Rightarrow> world \<Rightarrow> (consumer_group_service, unit) frame outcome" where
  "ConsumerGroupService_startConsuming h streamName batchSize blockTime ticks svc w =
     while_isRunning (\<lambda>fr. isRunning (this fr))
       (ConsumerGroupService_poll h streamName batchSize blockTime)
       ConsumerGroupService_interrupt ticks
       \<lparr>this = svc\<lparr>isRunning := True\<rparr>, vars = (), env = log_to (Starting (groupName svc)) w\<rparr>"

section \<open>services/consumer\<close>

record consumer_service =
  consumerId :: string
  cs_isRunning :: bool
  processedMessages :: "msg_id set"

definition ConsumerService :: "string \<Rightarrow> consumer_service" where
  "ConsumerService cid = \<lparr>consumerId = cid, cs_isRunning = False, processedMessages = {}\<rparr>"

text \<open>\<open>ConsumerService.handleEvent\<close>: the switch, then \<open>markEventAsProcessed\<close>.\<close>

definition ConsumerService_handleEvent :: "string option \<Rightarrow> json \<Rightarrow> string \<Rightarrow> msg_id \<Rightarrow> world \<Rightarrow> unit promise" where
  "ConsumerService_handleEvent eventType payload streamName messageId w =
     await (handleEvent_switch eventType payload w) (\<lambda>_ w1. markEventAsProcessed messageId w1)"

text \<open>The \<open>try\<close> block of \<open>ConsumerService.processMessage\<close>: parse, save, handle.\<close>

definition ConsumerService_handle :: "host \<Rightarrow> consumer_service \<Rightarrow> string \<Rightarrow> msg_id \<Rightarrow> string list \<Rightarrow> world \<Rightarrow> unit promise" where
  "ConsumerService_handle h svc streamName messageId fs w =
     await (parseMessageFields h fs, w) (\<lambda>messageData w1.
       await (saveEventToDatabase (consumerId svc) streamName messageId
                (md_eventType messageData) (md_payload messageData)
                (log_to (Processing messageId streamName (md_eventType messageData)) w1)) (\<lambda>_ w2.
         await (ConsumerService_handleEvent (md_eventType messageData) (md_payload messageData)
                  streamName messageId w2) (\<lambda>_ w3.
           (Inr (), log_to (Processed messageId) w3))))"

text \<open>\<open>ConsumerService.processMessage(streamName, messageId, fields)\<close>.\<close>

definition ConsumerService_processMessage :: "host \<Rightarrow> consumer_service \<Rightarrow> string \<Rightarrow> msg_id \<Rightarrow> string list \<Rightarrow> world \<Rightarrow> unit promise" where
  "ConsumerService_processMessage h svc streamName messageId fs w =
     try_catch
       (ConsumerService_handle h svc streamName messageId fs w)
       (\<lambda>error w1.
          handleProcessingError streamName messageId error (log_to (ProcessingError messageId error) w1))"

text \<open>
  The variables of a run of a polling method: its cursor (\<open>startId\<close> in
  \<open>startConsuming\<close>, the \<open>streams\<close> array with the id of each stream in
  \<open>startConsumingMultiple\<close>) and, as a history variable that the code does not have,
  the calls of \<open>processMessage\<close> made so far, each with its stream and message id.
\<close>

record 'c run_vars =
  cursor :: 'c
  dispatched :: "(string \<times> msg_id) list"

text \<open>
  \<open>streams[streams.findIndex(s => s.name === stream)].id = messageId\<close>, when the index
  is not -1.
\<close>

fun update_stream_id :: "string \<Rightarrow> msg_id \<Rightarrow> (string \<times> msg_id) list \<Rightarrow> (string \<times> msg_id) list" where
  "update_stream_id name i [] = []"
| "update_stream_id name i (s # ss) =
     (if fst s = name then (fst s, i) # ss else s # update_stream_id name i ss)"

text \<open>
  The two nested \<open>for\<close> loops, the same in \<open>startConsuming\<close> and
  \<open>startConsumingMultiple\<close> but for the statement that moves the cursor (\<open>advance\<close>).
\<close>

fun ConsumerService_each_message :: "host \<Rightarrow> (string \<Rightarrow> msg_id \<Rightarrow> 'c \<Rightarrow> 'c) \<Rightarrow> string \<Rightarrow> (msg_id \<times> string list) list \<Rightarrow> (consumer_service, 'c run_vars) frame \<Rightarrow> (js_error + unit) \<times> (consumer_service, 'c run_vars) frame" where
  "ConsumerService_each_message h advance stream [] fr = (Inr (), fr)"
| "ConsumerService_each_message h advance stream (m # ms) fr =
     (if fst m \<notin> processedMessages (this fr)
      then await (in_world (ConsumerService_processMessage h (this fr) stream (fst m) (snd m))
                    (fr\<lparr>vars := (vars fr)\<lparr>dispatched := dispatched (vars fr) @ [(stream, fst m)]\<rparr>\<rparr>))
             (\<lambda>_ fr1. ConsumerService_each_message h advance stream ms
                (fr1\<lparr>this := (this fr1)\<lparr>processedMessages := insert (fst m) (processedMessages (this fr1))\<rparr>,
                     vars := (vars fr1)\<lparr>cursor := advance stream (fst m) (cursor (vars fr1))\<rparr>\<rparr>))
      else ConsumerService_each_message h advance stream ms fr)"

fun ConsumerService_each_stream :: "host \<Rightarrow> (string \<Rightarrow> msg_id \<Rightarrow> 'c \<Rightarrow> 'c) \<Rightarrow> stream_messages list \<Rightarrow> (consumer_service, 'c run_vars) frame \<Rightarrow> (js_error + unit) \<times> (consumer_service, 'c run_vars) frame" where
  "ConsumerService_each_stream h advance [] fr = (Inr (), fr)"
| "ConsumerService_each_stream h advance (sm # sms) fr =
     await (ConsumerService_each_message h advance (fst sm) (snd sm) fr)
       (\<lambda>_ fr1. ConsumerService_each_stream h advance sms fr1)"

text \<open>The body of the \<open>while\<close> loop of \<open>ConsumerService.startConsuming\<close>.\<close>

definition ConsumerService_poll :: "host \<Rightarrow> string \<Rightarrow> nat \<Rightarrow> nat \<Rightarrow> (consumer_service, msg_id run_vars) frame \<Rightarrow> (js_error + unit) \<times> (consumer_service, msg_id run_vars) frame" where
  "ConsumerService_poll h streamName batchSize pollInterval fr =
     try_catch
       (await (in_world (readFromStream streamName (cursor (vars fr)) batchSize) fr)
          (\<lambda>messages fr1.
             if length messages > 0
             then ConsumerService_each_stream h (\<lambda>stream messageId startId. messageId) messages fr1
             else in_world (sleep pollInterval) fr1))
       (\<lambda>error fr1.
          in_world (\<lambda>w. sleep pollInterval (log_to (LoopError (consumerId (this fr1)) error) w)) fr1)"

text \<open>The body of the \<open>while\<close> loop of \<open>ConsumerService.startConsumingMultiple\<close>.\<close>

definition ConsumerService_pollMultiple :: "host \<Rightarrow> nat \<Rightarrow> nat \<Rightarrow> (consumer_service, (string \<times> msg_id) list run_vars) frame \<Rightarrow> (js_error + unit) \<times> (consumer_service, (string \<times> msg_id) list run_vars) frame" where
  "ConsumerService_pollMultiple h batchSize pollInterval fr =
     try_catch
       (await (in_world (readFromStreams (cursor (vars fr)) batchSize) fr)
          (\<lambda>messages fr1.
             if length messages > 0
             then ConsumerService_each_stream h update_stream_id messages fr1
             else in_world (sleep pollInterval) fr1))
       (\<lambda>error fr1.
          in_world (\<lambda>w. sleep pollInterval (log_to (LoopError (consumerId (this fr1)) error) w)) fr1)"

text \<open>\<open>ConsumerService.stop()\<close>.\<close>

definition ConsumerService_stop :: "(consumer_service, 'v) frame \<Rightarrow> (consumer_service, 'v) frame" where
  "ConsumerService_stop fr =
     fr\<lparr>this := (this fr)\<lparr>cs_isRunning := False\<rparr>, env := log_to (Stopping (consumerId (this fr))) (env fr)\<rparr>"

definition ConsumerService_interrupt :: "tick \<Rightarrow> (consumer_service, 'v) frame \<Rightarrow> (consumer_service, 'v) frame" where
  "ConsumerService_interrupt t fr =
     (let fr1 = fr\<lparr>env := external t (env fr)\<rparr>
      in if stop_called t then ConsumerService_stop fr1 else fr1)"

text \<open>
  The entry of a polling method: \<open>this.isRunning = true\<close>, the start line on the
  console, and the method's variables.
\<close>

definition ConsumerService_enter :: "consumer_service \<Rightarrow> 'c \<Rightarrow> world \<Rightarrow> (consumer_service, 'c run_vars) frame" where
  "ConsumerService_enter svc c w =
     \<lparr>this = svc\<lparr>cs_isRunning := True\<rparr>, vars = \<lparr>cursor = c, dispatched = []\<rparr>,
      env = log_to (Starting (consumerId svc)) w\<rparr>"

text \<open>\<open>ConsumerService.startConsuming(streamName, startId = '0', batchSize = 10, pollInterval = 1000)\<close>.\<close>

definition ConsumerService_startConsuming :: "host \<Rightarrow> string \<Rightarrow> msg_id \<Rightarrow> nat \<Rightarrow> nat \<Rightarrow> tick list \<Rightarrow> consumer_service \<Rightarrow> world \<Rightarrow> (consumer_service, msg_id run_vars) frame outcome" where
  "ConsumerService_startConsuming h streamName startId batchSize pollInterval ticks svc w =
     while_isRunning (\<lambda>fr. cs_isRunning (this fr))
       (ConsumerService_poll h streamName batchSize pollInterval)
       ConsumerService_interrupt ticks (ConsumerService_enter svc startId w)"

text \<open>\<open>ConsumerService.startConsumingMultiple(streams, batchSize = 10, pollInterval = 1000)\<close>.\<close>

definition ConsumerService_startConsumingMultiple :: "host \<Rightarrow> (string \<times> msg_id) list \<Rightarrow> nat \<Rightarrow> nat \<Rightarrow> tick list \<Rightarrow> consumer_service \<Rightarrow> world \<Rightarrow> (consumer_service, (string \<times> msg_id) list run_vars) frame outcome" where
  "ConsumerService_startConsumingMultiple h strs batchSize pollInterval ticks svc w =
     while_isRunning (\<lambda>fr. cs_isRunning (this fr))
       (ConsumerService_pollMultiple h batchSize pollInterval)
       ConsumerService_interrupt ticks (ConsumerService_enter svc strs w)"

section \<open>Worlds and hosts for worked examples\<close>

text \<open>The store after a successful \<open>create_group\<close>.\<close>

definition with_group :: "string \<Rightarrow> string \<Rightarrow> msg_id \<Rightarrow> log_store \<Rightarrow> log_store" where
  "with_group s g start st =
     st\<lparr>logs := (logs st)(s \<mapsto> (get_log st s)\<lparr>groups := (groups (get_log st s))(g \<mapsto> \<lparr>lastDeliveredId = start, pendingEntries = []\<rparr>)\<rparr>)\<rparr>"

definition empty_store :: log_store where
  "empty_store = \<lparr>logs = Map.empty, foreign_keys = {}, fault = None, server_time = 1000\<rparr>"

text \<open>A world with an empty store, an empty table and a database that accepts everything.\<close>

definition fresh_world :: world where
  "fresh_world = \<lparr>redis = empty_store, events = [], db_rejects = (\<lambda>_. None),
                   db_update_fault = None, clock = 1000, uuid_counter = 0, console = [],
                   backoffs = []\<rparr>"

text \<open>The same world with the store unavailable.\<close>

definition down_world :: world where
  "down_world = fresh_world\<lparr>redis := empty_store\<lparr>fault := Some ''Connection is closed.''\<rparr>\<rparr>"

text \<open>The group of a log, if both exist, and the ids of its pending entries.\<close>

definition group_of :: "log_store \<Rightarrow> string \<Rightarrow> string \<Rightarrow> consumer_group option" where
  "group_of st s g = groups (get_log st s) g"

definition pending_ids :: "log_store \<Rightarrow> string \<Rightarrow> string \<Rightarrow> msg_id list" where
  "pending_ids st s g = (case group_of st s g of None \<Rightarrow> [] | Some grp \<Rightarrow> map pend_id (pendingEntries grp))"

text \<open>A store where one entry of \<open>user:events\<close> is pending for a consumer of a group.\<close>

definition one_entry :: entry where
  "one_entry = \<lparr>entry_id = (1000, 0),
                 entry_fields = [''eventType'', ''user.created'', ''payload'', ''{}'',
                                 ''timestamp'', ''1000'', ''id'', ''uuid-0'']\<rparr>"

definition claimed_store :: log_store where
  "claimed_store = empty_store\<lparr>logs := [''user:events'' \<mapsto>
       \<lparr>entries = [one_entry],
        groups = [''user-processing-group'' \<mapsto>
          \<lparr>lastDeliveredId = (1000, 0),
           pendingEntries = [\<lparr>pend_id = (1000, 0), pend_consumer = ''consumer-1'',
                              deliveryCount = 1, lastDeliveryTime = 1000\<rparr>]\<rparr>]\<rparr>]\<rparr>"

definition claimed_world :: world where
  "claimed_world = fresh_world\<lparr>redis := claimed_store\<rparr>"

text \<open>
  A host for the worked examples: \<open>JSON.parse\<close> and \<open>JSON.stringify\<close> on the few
  documents the examples use (any other text is not JSON for this host), and \<open>uuidv4\<close>
  handing out numbered identifiers.
\<close>

definition json_texts :: "(string \<times> json) list" where
  "json_texts =
     [(''{}'', JObj []),
      (''null'', JNull),
      (''{\"userId\":\"u1\"}'', JObj [(''userId'', JStr ''u1'')]),
      (''{\"userId\":\"u2\"}'', JObj [(''userId'', JStr ''u2'')]),
      (''{\"username\":{\"toString\":1}}'', JObj [(''username'', JObj [(''toString'', JNum 1)])])]"

definition demo_host :: host where
  "demo_host =
     \<lparr>JSON_parse = map_of json_texts,
      JSON_stringify = (\<lambda>v. case List.find (\<lambda>p. snd p = v) json_texts of
                               Some p \<Rightarrow> fst p | None \<Rightarrow> ''{}''),
      uuidv4 = (\<lambda>n. ''uuid-'' @ show_nat n)\<rparr>"

text \<open>The lines \<open>acknowledgeMessage\<close> writes to the console, one for each call.\<close>

fun is_ack_line :: "log_line \<Rightarrow> bool" where
  "is_ack_line (Acknowledged i g) = True"
| "is_ack_line (AckError i e) = True"
| "is_ack_line l = False"

definition ack_calls :: "world \<Rightarrow> log_line list" where
  "ack_calls w = filter is_ack_line (console w)"

text \<open>
  A step that neither sends a command to the store nor calls \<open>acknowledgeMessage\<close>
  leaves the store and the acknowledgement lines as they were.
\<close>

definition quiet :: "world \<Rightarrow> world \<Rightarrow> bool" where
  "quiet w w' = (redis w' = redis w \<and> ack_calls w' = ack_calls w)"

text \<open>The event types the \<open>switch\<close> of \<open>handleEvent\<close> has a case for.\<close>

definition known_types :: "string list" where
  "known_types = [USER_CREATED, USER_UPDATED, USER_DELETED, MESSAGE_SENT, TASK_CREATED,
                  TASK_COMPLETED, SYSTEM_ERROR, SYSTEM_INFO]"

text \<open>The grouped consumer of scripts/startConsumerGroup, with a fixed consumer name.\<close>

definition demo_group_service :: consumer_group_service where
  "demo_group_service = ConsumerGroupService ''user-processing-group'' ''consumer-1''"

text \<open>
  A world in which the key \<open>session:42\<close> holds something other than a log, and a batch
  of two events, the second addressed to that key.
\<close>

definition mixed_world :: world where
  "mixed_world = fresh_world\<lparr>redis := empty_store\<lparr>foreign_keys := {''session:42''}\<rparr>\<rparr>"

definition user_created_event :: publish_event where
  "user_created_event = \<lparr>ev_streamName = ''user:events'', ev_eventType = ''user.created'',
                           ev_payload = JObj [(''userId'', JStr ''u1'')]\<rparr>"

definition misdirected_event :: publish_event where
  "misdirected_event = \<lparr>ev_streamName = ''session:42'', ev_eventType = ''user.created'',
                          ev_payload = JObj []\<rparr>"

text \<open>The state a run of a polling loop is in at its outcome.\<close>

fun outcome_state :: "'s outcome \<Rightarrow> 's" where
  "outcome_state (StillRunning s) = s"
| "outcome_state (Stopped s) = s"
| "outcome_state (Thrown e s) = s"

text \<open>
  What one pass of the inner \<open>for\<close> loop does to the frame for a message that is not yet
  in \<open>processedMessages\<close>: the call is recorded, the world is the one \<open>processMessage\<close>
  left, the id is added to the set and the cursor is moved.
\<close>

definition dispatch_step :: "(string \<Rightarrow> msg_id \<Rightarrow> 'c \<Rightarrow> 'c) \<Rightarrow> string \<Rightarrow> msg_id \<Rightarrow> world \<Rightarrow> (consumer_service, 'c run_vars) frame \<Rightarrow> (consumer_service, 'c run_vars) frame" where
  "dispatch_step advance stream i w fr =
     fr\<lparr>env := w,
        this := (this fr)\<lparr>processedMessages := insert i (processedMessages (this fr))\<rparr>,
        vars := (vars fr)\<lparr>dispatched := dispatched (vars fr) @ [(stream, i)],
                         cursor := advance stream i (cursor (vars fr))\<rparr>\<rparr>"

text \<open>
  The ids handed to \<open>processMessage\<close> so far are pairwise distinct, none of them was in
  \<open>processedMessages\<close> when the run began (\<open>seen\<close>), and the set has grown by exactly
  them.
\<close>

definition at_most_once :: "msg_id set \<Rightarrow> (consumer_service, 'c run_vars) frame \<Rightarrow> bool" where
  "at_most_once seen fr =
     (distinct (map snd (dispatched (vars fr))) \<and>
      set (map snd (dispatched (vars fr))) \<inter> seen = {} \<and>
      processedMessages (this fr) = seen \<union> set (map snd (dispatched (vars fr))))"

text \<open>The cursor is the id of the last message handed to \<open>processMessage\<close>, if any.\<close>

definition follows_dispatch :: "msg_id \<Rightarrow> (consumer_service, msg_id run_vars) frame \<Rightarrow> bool" where
  "follows_dispatch start fr = (cursor (vars fr) = last (start # map snd (dispatched (vars fr))))"

text \<open>
  The simple consumer of scripts/startConsumer, two ticks (one during which nothing
  happens, one during which \<open>stop()\<close> is called), a world whose only entry has a payload
  that is not JSON, and a world with two logs of one entry each.
\<close>

definition example_consumer :: consumer_service where
  "example_consumer = ConsumerService ''example-consumer''"

definition idle_tick :: tick where
  "idle_tick = \<lparr>stop_called = False, external = (\<lambda>w. w)\<rparr>"

definition stop_tick :: tick where
  "stop_tick = \<lparr>stop_called = True, external = (\<lambda>w. w)\<rparr>"

definition unparsable_world :: world where
  "unparsable_world = fresh_world\<lparr>redis := empty_store\<lparr>logs := [''user:events'' \<mapsto>
       \<lparr>entries = [\<lparr>entry_id = (1000, 0),
                     entry_fields = [''eventType'', ''user.created'', ''payload'', ''{oops'',
                                     ''timestamp'', ''1000'', ''id'', ''uuid-0'']\<rparr>],
        groups = Map.empty\<rparr>]\<rparr>\<rparr>"

definition two_streams_world :: world where
  "two_streams_world = fresh_world\<lparr>redis := empty_store\<lparr>logs :=
      [''user:events'' \<mapsto> \<lparr>entries = [one_entry], groups = Map.empty\<rparr>,
       ''task:queue'' \<mapsto>
         \<lparr>entries = [\<lparr>entry_id = (1000, 0),
                       entry_fields = [''eventType'', ''task.created'', ''payload'', ''{}'',
                                       ''timestamp'', ''1000'', ''id'', ''uuid-1'']\<rparr>],
          groups = Map.empty\<rparr>]\<rparr>\<rparr>"

fun is_stopped :: "'s outcome \<Rightarrow> bool" where
  "is_stopped (Stopped s) = True"
| "is_stopped (StillRunning s) = False"
| "is_stopped (Thrown e s) = False"

text \<open>The field list \<open>addToStream\<close> sends with its append.\<close>

definition stream_fields :: "host \<Rightarrow> string \<Rightarrow> json \<Rightarrow> world \<Rightarrow> string list" where
  "stream_fields h eventType payload w =
     [''eventType'', eventType, ''payload'', JSON_stringify h payload,
      ''timestamp'', show_nat (clock w), ''id'', uuidv4 h (uuid_counter w)]"

text \<open>\<open>payload.userId || null\<close> for a payload that is not \<open>null\<close>.\<close>

definition userId_of :: "json \<Rightarrow> json option" where
  "userId_of payload =
     (case get_prop payload ''userId'' of
        Inl e \<Rightarrow> None
      | Inr None \<Rightarrow> None
      | Inr (Some v) \<Rightarrow> if truthy v then Some v else None)"

section \<open>Promises and store commands: basic facts\<close>

lemma busy_includes: "str_includes ''BUSYGROUP Consumer Group name already exists'' ''BUSYGROUP''"
  by simp

lemma redis_call_simps:
  "redis_call cmd w = (fst (cmd (redis w)), w\<lparr>redis := snd (cmd (redis w))\<rparr>)"
  by (simp add: redis_call_def split: prod.splits)

lemma await_Inl [simp]: "await (Inl e, s) f = (Inl e, s)"
  and await_Inr [simp]: "await (Inr x, s) f = f x s"
  and try_catch_Inl [simp]: "try_catch (Inl e, s) k = k e s"
  and try_catch_Inr [simp]: "try_catch (Inr x, s) k = (Inr x, s)"
  by (simp_all add: await_def try_catch_def)

lemma xgroup_create_refused:
  "refused st s = Some e \<Longrightarrow> xgroup_create s g start st = (Inl e, st)"
  by (simp add: xgroup_create_def)

lemma xgroup_create_new:
  "refused st s = None \<Longrightarrow> groups (get_log st s) g = None \<Longrightarrow>
   xgroup_create s g start st =
     (Inr (), st\<lparr>logs := (logs st)(s \<mapsto> (get_log st s)\<lparr>groups := (groups (get_log st s))(g \<mapsto> \<lparr>lastDeliveredId = start, pendingEntries = []\<rparr>)\<rparr>)\<rparr>)"
  by (simp add: xgroup_create_def Let_def)

lemma xgroup_create_busy:
  "refused st s = None \<Longrightarrow> groups (get_log st s) g = Some grp \<Longrightarrow>
   xgroup_create s g start st = (Inl (ReplyError ''BUSYGROUP Consumer Group name already exists''), st)"
  by (simp add: xgroup_create_def Let_def)

lemma createConsumerGroup_new:
  "refused (redis w) s = None \<Longrightarrow> groups (get_log (redis w) s) g = None \<Longrightarrow>
   createConsumerGroup s g start w
     = (Inr True, log_to (GroupCreated g s) (w\<lparr>redis := with_group s g start (redis w)\<rparr>))"
  by (simp add: createConsumerGroup_def redis_call_simps xgroup_create_new with_group_def)

lemma createConsumerGroup_busy:
  "refused (redis w) s = None \<Longrightarrow> groups (get_log (redis w) s) g = Some grp \<Longrightarrow>
   createConsumerGroup s g start w = (Inr True, log_to (GroupExists g s) w)"
  by (simp add: createConsumerGroup_def redis_call_simps xgroup_create_busy)

lemma createConsumerGroup_refused:
  "refused (redis w) s = Some e \<Longrightarrow>
   createConsumerGroup s g start w
     = (if str_includes (message e) ''BUSYGROUP'' then (Inr True, log_to (GroupExists g s) w)
        else (Inl e, log_to (GroupCreateError g e) w))"
  by (simp add: createConsumerGroup_def redis_call_simps xgroup_create_refused)

lemma redis_log_to [simp]: "redis (log_to l w) = redis w"
  by (simp add: log_to_def)

lemma with_group_facts:
  "refused (with_group s g start st) s = refused st s"
  "groups (get_log (with_group s g start st) s) g = Some \<lparr>lastDeliveredId = start, pendingEntries = []\<rparr>"
  by (simp_all add: with_group_def refused_def get_log_def)

section \<open>C4: createConsumerGroup is an idempotent create\<close>

text \<open>
  C4. When the store accepts the command, \<open>createConsumerGroup\<close> returns \<open>true\<close>: a
  group that did not exist is created with its cursor at the start id and nothing
  pending, an existing group (the store's BUSYGROUP reply) leaves the store as it is,
  and a second call succeeds again and changes nothing. Any other error of the store is
  thrown to the caller unchanged; only an error whose message contains BUSYGROUP is
  turned into success.
\<close>

theorem createConsumerGroup_idempotent:
  "(refused (redis w) s = None \<longrightarrow>
      fst (createConsumerGroup s g start w) = Inr True \<and>
      (case groups (get_log (redis w) s) g of
         None \<Rightarrow> groups (get_log (redis (snd (createConsumerGroup s g start w))) s) g
                  = Some \<lparr>lastDeliveredId = start, pendingEntries = []\<rparr>
       | Some grp \<Rightarrow> redis (snd (createConsumerGroup s g start w)) = redis w) \<and>
      fst (createConsumerGroup s g start (snd (createConsumerGroup s g start w))) = Inr True \<and>
      redis (snd (createConsumerGroup s g start (snd (createConsumerGroup s g start w))))
        = redis (snd (createConsumerGroup s g start w))) \<and>
   (\<forall>e. refused (redis w) s = Some e \<longrightarrow>
      fst (createConsumerGroup s g start w)
        = (if str_includes (message e) ''BUSYGROUP'' then Inr True else Inl e) \<and>
      redis (snd (createConsumerGroup s g start w)) = redis w)"
proof (intro conjI impI allI)
  fix e assume "refused (redis w) s = Some e"
  then show "fst (createConsumerGroup s g start w)
        = (if str_includes (message e) ''BUSYGROUP'' then Inr True else Inl e)"
    and "redis (snd (createConsumerGroup s g start w)) = redis w"
    by (simp_all add: createConsumerGroup_refused)
next
  assume ok: "refused (redis w) s = None"
  show first: "fst (createConsumerGroup s g start w) = Inr True"
    using ok by (cases "groups (get_log (redis w) s) g")
      (simp_all add: createConsumerGroup_new createConsumerGroup_busy)
  show "case groups (get_log (redis w) s) g of
         None \<Rightarrow> groups (get_log (redis (snd (createConsumerGroup s g start w))) s) g
                  = Some \<lparr>lastDeliveredId = start, pendingEntries = []\<rparr>
       | Some grp \<Rightarrow> redis (snd (createConsumerGroup s g start w)) = redis w"
    using ok by (cases "groups (get_log (redis w) s) g")
      (simp_all add: createConsumerGroup_new createConsumerGroup_busy with_group_facts)
  let ?w1 = "snd (createConsumerGroup s g start w)"
  have ok1: "refused (redis ?w1) s = None"
    using ok by (cases "groups (get_log (redis w) s) g")
      (simp_all add: createConsumerGroup_new createConsumerGroup_busy with_group_facts)
  have "\<exists>grp. groups (get_log (redis ?w1) s) g = Some grp"
    using ok by (cases "groups (get_log (redis w) s) g")
      (simp_all add: createConsumerGroup_new createConsumerGroup_busy with_group_facts)
  then obtain grp where "groups (get_log (redis ?w1) s) g = Some grp" ..
  with ok1 show "fst (createConsumerGroup s g start ?w1) = Inr True"
    and "redis (snd (createConsumerGroup s g start ?w1)) = redis ?w1"
    by (simp_all add: createConsumerGroup_busy)
qed


theorem createConsumerGroup_idempotent_witness:
  "refused (redis fresh_world) ''user:events'' = None \<and>
   fst (createConsumerGroup ''user:events'' ''user-processing-group'' (0, 0) fresh_world) = Inr True \<and>
   groups (get_log (redis (snd (createConsumerGroup ''user:events'' ''user-processing-group'' (0, 0) fresh_world)))
             ''user:events'') ''user-processing-group''
     = Some \<lparr>lastDeliveredId = (0, 0), pendingEntries = []\<rparr> \<and>
   fst (createConsumerGroup ''user:events'' ''user-processing-group'' (0, 0)
          (snd (createConsumerGroup ''user:events'' ''user-processing-group'' (0, 0) fresh_world))) = Inr True \<and>
   refused (redis down_world) ''user:events'' = Some (ReplyError ''Connection is closed.'') \<and>
   fst (createConsumerGroup ''user:events'' ''user-processing-group'' (0, 0) down_world)
     = Inl (ReplyError ''Connection is closed.'')"
proof -
  have up: "refused (redis fresh_world) ''user:events'' = None"
    by (simp add: refused_def fresh_world_def empty_store_def)
  have absent: "groups (get_log (redis fresh_world) ''user:events'') ''user-processing-group'' = None"
    by (simp add: get_log_def fresh_world_def empty_store_def empty_log_def)
  have down: "refused (redis down_world) ''user:events'' = Some (ReplyError ''Connection is closed.'')"
    by (simp add: refused_def down_world_def fresh_world_def empty_store_def)
  have other: "\<not> str_includes ''Connection is closed.'' ''BUSYGROUP''"
    by simp
  from createConsumerGroup_idempotent [of fresh_world "''user:events''" "''user-processing-group''" "(0, 0)"]
    createConsumerGroup_idempotent [of down_world "''user:events''" "''user-processing-group''" "(0, 0)"]
    up absent down other
  show ?thesis by simp
qed

section \<open>C9: acknowledgement is idempotent\<close>

lemma xack_refused: "refused st s = Some e \<Longrightarrow> xack s g i st = (Inl e, st)"
  by (simp add: xack_def)

lemma xack_no_group:
  "refused st s = None \<Longrightarrow> group_of st s g = None \<Longrightarrow> xack s g i st = (Inr 0, st)"
  by (auto simp: xack_def group_of_def get_log_def empty_log_def split: option.splits)

lemma xack_group:
  "refused st s = None \<Longrightarrow> group_of st s g = Some grp \<Longrightarrow>
   xack s g i st =
     (Inr (length (filter (\<lambda>p. pend_id p = i) (pendingEntries grp))),
      st\<lparr>logs := (logs st)(s \<mapsto> (get_log st s)\<lparr>groups := (groups (get_log st s))(g \<mapsto>
             grp\<lparr>pendingEntries := filter (\<lambda>p. pend_id p \<noteq> i) (pendingEntries grp)\<rparr>)\<rparr>)\<rparr>)"
  by (auto simp: xack_def group_of_def get_log_def empty_log_def split: option.splits)

lemma xack_accepts: "refused st s = None \<Longrightarrow> \<exists>n. fst (xack s g i st) = Inr n"
  by (cases "group_of st s g") (simp_all add: xack_no_group xack_group)

lemma refused_xack [simp]: "refused (snd (xack s g i st)) s' = refused st s'"
  by (cases "refused st s"; cases "group_of st s g")
     (simp_all add: xack_refused xack_no_group xack_group, simp_all add: refused_def)

lemma group_of_xack:
  "refused st s = None \<Longrightarrow> group_of st s g = Some grp \<Longrightarrow>
   group_of (snd (xack s g i st)) s g = Some (grp\<lparr>pendingEntries := filter (\<lambda>p. pend_id p \<noteq> i) (pendingEntries grp)\<rparr>)"
  by (simp add: xack_group) (simp add: group_of_def get_log_def)

lemma xack_not_pending:
  assumes "i \<notin> set (pending_ids st s g)"
  shows "snd (xack s g i st) = st"
proof (cases "refused st s")
  case (Some e) then show ?thesis by (simp add: xack_refused)
next
  case None
  show ?thesis
  proof (cases "group_of st s g")
    case None with \<open>refused st s = None\<close> show ?thesis by (simp add: xack_no_group)
  next
    case (Some grp)
    with assms have "filter (\<lambda>p. pend_id p \<noteq> i) (pendingEntries grp) = pendingEntries grp"
      by (auto simp: pending_ids_def filter_id_conv)
    moreover from Some have "logs st s = Some (get_log st s)"
      by (auto simp: group_of_def get_log_def empty_log_def split: option.splits)
    moreover from Some have "groups (get_log st s) g = Some grp" by (simp add: group_of_def)
    ultimately show ?thesis
      using None Some by (simp add: xack_group fun_upd_idem)
  qed
qed

lemma pending_ids_xack:
  "refused st s = None \<Longrightarrow> i \<notin> set (pending_ids (snd (xack s g i st)) s g)"
  by (cases "group_of st s g") (auto simp: pending_ids_def xack_no_group group_of_xack)

lemma xack_twice: "snd (xack s g i (snd (xack s g i st))) = snd (xack s g i st)"
proof (cases "refused st s")
  case (Some e) then show ?thesis by (simp add: xack_refused)
next
  case None
  then show ?thesis by (simp add: xack_not_pending pending_ids_xack)
qed

lemma xack_not_pending_count:
  "refused st s = None \<Longrightarrow> i \<notin> set (pending_ids st s g) \<Longrightarrow> fst (xack s g i st) = Inr 0"
  by (cases "group_of st s g") (auto simp: xack_no_group xack_group pending_ids_def filter_empty_conv)

lemma acknowledgeMessage_xack:
  "fst (acknowledgeMessage s g i w) = fst (xack s g i (redis w))"
  "redis (snd (acknowledgeMessage s g i w)) = snd (xack s g i (redis w))"
  by (cases "fst (xack s g i (redis w))"; simp add: acknowledgeMessage_def redis_call_simps)+

text \<open>
  C9. Acknowledging the same entry id twice leaves the store exactly as acknowledging it
  once does, and acknowledging an id that is not pending changes nothing in the store.
  When the store accepts the command, the acknowledgement returns a count and no error,
  the id is not pending afterwards, and a second acknowledgement, like that of an id
  that was never pending, returns 0.
\<close>

theorem acknowledgeMessage_idempotent:
  "redis (snd (acknowledgeMessage s g i (snd (acknowledgeMessage s g i w))))
     = redis (snd (acknowledgeMessage s g i w)) \<and>
   (i \<notin> set (pending_ids (redis w) s g) \<longrightarrow> redis (snd (acknowledgeMessage s g i w)) = redis w) \<and>
   (refused (redis w) s = None \<longrightarrow>
      (\<exists>n. fst (acknowledgeMessage s g i w) = Inr n) \<and>
      i \<notin> set (pending_ids (redis (snd (acknowledgeMessage s g i w))) s g) \<and>
      fst (acknowledgeMessage s g i (snd (acknowledgeMessage s g i w))) = Inr 0 \<and>
      (i \<notin> set (pending_ids (redis w) s g) \<longrightarrow> fst (acknowledgeMessage s g i w) = Inr 0))"
  by (simp add: acknowledgeMessage_xack xack_twice xack_not_pending xack_accepts
        pending_ids_xack xack_not_pending_count)

lemma pending_claimed:
  "pending_ids (redis claimed_world) ''user:events'' ''user-processing-group'' = [(1000, 0)]"
  by (simp add: pending_ids_def group_of_def get_log_def claimed_world_def claimed_store_def)

theorem acknowledgeMessage_idempotent_witness:
  "refused (redis claimed_world) ''user:events'' = None \<and>
   pending_ids (redis claimed_world) ''user:events'' ''user-processing-group'' = [(1000, 0)] \<and>
   fst (acknowledgeMessage ''user:events'' ''user-processing-group'' (1000, 0) claimed_world) = Inr 1 \<and>
   pending_ids (redis (snd (acknowledgeMessage ''user:events'' ''user-processing-group'' (1000, 0) claimed_world)))
      ''user:events'' ''user-processing-group'' = [] \<and>
   fst (acknowledgeMessage ''user:events'' ''user-processing-group'' (1000, 0)
         (snd (acknowledgeMessage ''user:events'' ''user-processing-group'' (1000, 0) claimed_world))) = Inr 0 \<and>
   redis (snd (acknowledgeMessage ''user:events'' ''user-processing-group'' (1000, 0)
         (snd (acknowledgeMessage ''user:events'' ''user-processing-group'' (1000, 0) claimed_world))))
     = redis (snd (acknowledgeMessage ''user:events'' ''user-processing-group'' (1000, 0) claimed_world)) \<and>
   (1000, 7) \<notin> set (pending_ids (redis claimed_world) ''user:events'' ''user-processing-group'') \<and>
   fst (acknowledgeMessage ''user:events'' ''user-processing-group'' (1000, 7) claimed_world) = Inr 0 \<and>
   redis (snd (acknowledgeMessage ''user:events'' ''user-processing-group'' (1000, 7) claimed_world))
     = redis claimed_world"
proof -
  have up: "refused (redis claimed_world) ''user:events'' = None"
    by (simp add: refused_def claimed_world_def claimed_store_def empty_store_def)
  have grp: "group_of (redis claimed_world) ''user:events'' ''user-processing-group''
      = Some \<lparr>lastDeliveredId = (1000, 0),
           pendingEntries = [\<lparr>pend_id = (1000, 0), pend_consumer = ''consumer-1'',
                              deliveryCount = 1, lastDeliveryTime = 1000\<rparr>]\<rparr>"
    by (simp add: group_of_def get_log_def claimed_world_def claimed_store_def)
  have one: "fst (acknowledgeMessage ''user:events'' ''user-processing-group'' (1000, 0) claimed_world) = Inr 1"
    using up grp by (simp add: acknowledgeMessage_xack xack_group)
  have gone: "pending_ids (redis (snd (acknowledgeMessage ''user:events'' ''user-processing-group'' (1000, 0) claimed_world)))
      ''user:events'' ''user-processing-group'' = []"
    using up grp by (simp add: acknowledgeMessage_xack pending_ids_def group_of_xack)
  from acknowledgeMessage_idempotent [of "''user:events''" "''user-processing-group''" "(1000, 0)" claimed_world]
    acknowledgeMessage_idempotent [of "''user:events''" "''user-processing-group''" "(1000, 7)" claimed_world]
    up one gone pending_claimed
  show ?thesis by simp
qed

section \<open>Steps that do not touch the store\<close>

lemma quiet_refl [simp]: "quiet w w"
  by (simp add: quiet_def)

lemma quiet_trans: "quiet w w1 \<Longrightarrow> quiet w1 w2 \<Longrightarrow> quiet w w2"
  by (simp add: quiet_def)

lemma quiet_log_to: "\<not> is_ack_line l \<Longrightarrow> quiet w w1 \<Longrightarrow> quiet w (log_to l w1)"
  by (simp add: quiet_def log_to_def ack_calls_def)

lemma quiet_await:
  assumes "quiet w (snd m)" and "\<And>x w1. quiet w1 (snd (f x w1))"
  shows "quiet w (snd (await m f))"
proof (cases m)
  case (Pair r w1)
  then show ?thesis using assms quiet_trans [of w w1 "snd (f (projr r) w1)"]
    by (cases r) (auto simp: quiet_trans)
qed

lemma quiet_try_catch:
  assumes "quiet w (snd m)" and "\<And>e w1. quiet w1 (snd (k e w1))"
  shows "quiet w (snd (try_catch m k))"
proof (cases m)
  case (Pair r w1)
  then show ?thesis using assms quiet_trans [of w w1 "snd (k (projl r) w1)"]
    by (cases r) (auto simp: quiet_trans)
qed

lemma quiet_Event_create: "quiet w (snd (Event_create i t p c u w))"
  by (simp add: Event_create_def quiet_def ack_calls_def Let_def split: option.splits)

lemma quiet_Event_update: "quiet w (snd (Event_update ch i w))"
  by (simp add: Event_update_def quiet_def ack_calls_def split: option.splits)

lemma quiet_saveEventToDatabase: "quiet w (snd (saveEventToDatabase c s i t p w))"
  unfolding saveEventToDatabase_def
  by (intro quiet_try_catch quiet_await) (simp_all add: quiet_Event_create quiet_log_to Let_def)

lemma quiet_console_log: "quiet w (snd (console_log us l p w))"
  by (cases "use_props p us") (simp_all add: console_log_def quiet_log_to)

lemma quiet_handlers:
  "quiet w (snd (handleUserCreated p w))"
  "quiet w (snd (handleUserUpdated p w))"
  "quiet w (snd (handleUserDeleted p w))"
  "quiet w (snd (handleMessageSent p w))"
  "quiet w (snd (handleTaskCreated p w))"
  "quiet w (snd (handleTaskCompleted p w))"
  "quiet w (snd (handleSystemError p w))"
  "quiet w (snd (handleSystemInfo p w))"
  unfolding handleUserCreated_def handleUserUpdated_def handleUserDeleted_def handleMessageSent_def
    handleTaskCreated_def handleTaskCompleted_def handleSystemError_def handleSystemInfo_def
  by (intro quiet_await quiet_console_log)+

lemma quiet_handleEvent_switch: "quiet w (snd (handleEvent_switch t p w))"
  by (simp add: handleEvent_switch_def quiet_handlers quiet_log_to)

lemma quiet_markEventAsProcessed: "quiet w (snd (markEventAsProcessed i w))"
  unfolding markEventAsProcessed_def
  by (intro quiet_try_catch) (simp_all add: quiet_Event_update quiet_log_to)

lemma quiet_handleProcessingError: "quiet w (snd (handleProcessingError s i e w))"
  unfolding handleProcessingError_def
  by (intro quiet_try_catch) (simp_all add: quiet_Event_update quiet_log_to)

lemma quiet_ConsumerGroupService_handle: "quiet w (snd (ConsumerGroupService_handle h svc s i fs w))"
  unfolding ConsumerGroupService_handle_def ConsumerGroupService_handleEvent_def
  by (intro quiet_await) (simp_all add: quiet_saveEventToDatabase quiet_handleEvent_switch quiet_log_to quiet_trans [OF _ quiet_saveEventToDatabase])

lemma markEventAsProcessed_returns [simp]: "fst (markEventAsProcessed i w) = Inr ()"
  by (simp add: markEventAsProcessed_def Event_update_def split: option.splits)

lemma handleProcessingError_returns [simp]: "fst (handleProcessingError s i e w) = Inr ()"
  by (simp add: handleProcessingError_def Event_update_def split: option.splits)

lemma fst_try_catch:
  "fst (try_catch m k) = (case fst m of Inl e \<Rightarrow> fst (k e (snd m)) | Inr x \<Rightarrow> Inr x)"
  by (cases m; cases "fst m") auto

lemma snd_try_catch:
  "snd (try_catch m k) = (case fst m of Inl e \<Rightarrow> snd (k e (snd m)) | Inr x \<Rightarrow> snd m)"
  by (cases m; cases "fst m") auto

lemma fst_await:
  "fst (await m f) = (case fst m of Inl e \<Rightarrow> Inl e | Inr x \<Rightarrow> fst (f x (snd m)))"
  by (cases m; cases "fst m") auto

lemma snd_await:
  "snd (await m f) = (case fst m of Inl e \<Rightarrow> snd m | Inr x \<Rightarrow> snd (f x (snd m)))"
  by (cases m; cases "fst m") auto

lemma processMessage_returns: "fst (ConsumerGroupService_processMessage h svc s i fs w) = Inr ()"
  by (simp add: ConsumerGroupService_processMessage_def fst_try_catch fst_await split: sum.splits)

lemma processMessage_failed:
  assumes "fst (ConsumerGroupService_handle h svc s i fs w) = Inl e"
  shows "snd (ConsumerGroupService_processMessage h svc s i fs w)
      = snd (handleProcessingError s i e
               (log_to (ProcessingError i e) (snd (ConsumerGroupService_handle h svc s i fs w))))"
  using assms
  by (simp add: ConsumerGroupService_processMessage_def snd_try_catch fst_await snd_await)

lemma console_handleProcessingError:
  "set (console w) \<subseteq> set (console (snd (handleProcessingError s i e w)))"
  by (auto simp: handleProcessingError_def Event_update_def log_to_def split: option.splits)

text \<open>Unfolding the worked examples.\<close>

lemmas world_defs = claimed_world_def claimed_store_def fresh_world_def empty_store_def one_entry_def
  demo_host_def json_texts_def demo_group_service_def ConsumerGroupService_def

lemmas step_defs = ConsumerGroupService_processMessage_def ConsumerGroupService_handle_def
  ConsumerGroupService_handleEvent_def parseMessageFields_def saveEventToDatabase_def
  Event_create_def Event_update_def handleProcessingError_def markEventAsProcessed_def
  acknowledgeMessage_def redis_call_def xack_def refused_def log_to_def
  handleEvent_switch_def known_types_def USER_CREATED_def USER_UPDATED_def USER_DELETED_def
  MESSAGE_SENT_def TASK_CREATED_def TASK_COMPLETED_def SYSTEM_ERROR_def SYSTEM_INFO_def
  console_log_def handleUserCreated_def handleUserUpdated_def handleUserDeleted_def
  handleMessageSent_def handleTaskCreated_def handleTaskCompleted_def handleSystemError_def
  handleSystemInfo_def ack_calls_def pending_ids_def group_of_def get_log_def

section \<open>C2: a failed message is caught and not acknowledged\<close>

text \<open>
  C2. \<open>ConsumerGroupService.processMessage\<close> never throws, so the \<open>for\<close> loop of the
  polling loop goes on with the next message. When the handling of a message (parsing
  its fields, saving the event, or the handler of its event type) throws,
  \<open>acknowledgeMessage\<close> is not called and no command reaches the store, so the entry
  stays in the group's pending entries; the error is logged.
\<close>

theorem processMessage_catches_and_does_not_acknowledge:
  "fst (ConsumerGroupService_processMessage h svc s i fs w) = Inr () \<and>
   ConsumerGroupService_each_message h svc s ((i, fs) # ms) w
     = ConsumerGroupService_each_message h svc s ms
         (snd (ConsumerGroupService_processMessage h svc s i fs w)) \<and>
   (\<forall>e. fst (ConsumerGroupService_handle h svc s i fs w) = Inl e \<longrightarrow>
      ack_calls (snd (ConsumerGroupService_processMessage h svc s i fs w)) = ack_calls w \<and>
      redis (snd (ConsumerGroupService_processMessage h svc s i fs w)) = redis w \<and>
      ProcessingError i e \<in> set (console (snd (ConsumerGroupService_processMessage h svc s i fs w))))"
proof (intro conjI allI impI)
  show "fst (ConsumerGroupService_processMessage h svc s i fs w) = Inr ()"
    by (rule processMessage_returns)
  then show "ConsumerGroupService_each_message h svc s ((i, fs) # ms) w
     = ConsumerGroupService_each_message h svc s ms
         (snd (ConsumerGroupService_processMessage h svc s i fs w))"
    by (cases "ConsumerGroupService_processMessage h svc s i fs w") simp
next
  fix e assume failed: "fst (ConsumerGroupService_handle h svc s i fs w) = Inl e"
  let ?w1 = "snd (ConsumerGroupService_handle h svc s i fs w)"
  let ?w2 = "snd (ConsumerGroupService_processMessage h svc s i fs w)"
  have "quiet w ?w1" by (rule quiet_ConsumerGroupService_handle)
  then have "quiet w (log_to (ProcessingError i e) ?w1)" by (simp add: quiet_log_to)
  then have "quiet w ?w2"
    unfolding processMessage_failed [OF failed]
    by (rule quiet_trans) (rule quiet_handleProcessingError)
  then show "ack_calls ?w2 = ack_calls w" and "redis ?w2 = redis w"
    by (simp_all add: quiet_def)
  have "ProcessingError i e \<in> set (console (log_to (ProcessingError i e) ?w1))"
    by (simp add: log_to_def)
  then show "ProcessingError i e \<in> set (console ?w2)"
    unfolding processMessage_failed [OF failed]
    using console_handleProcessingError by blast
qed



theorem processMessage_catches_and_does_not_acknowledge_witness:
  "fst (handleUserCreated (JObj [(''username'', JObj [(''toString'', JNum 1)])]) claimed_world)
     = Inl (TypeError ''Cannot convert object to primitive value'') \<and>
   fst (ConsumerGroupService_handle demo_host demo_group_service ''user:events'' (1000, 0)
          [''eventType'', ''user.created'', ''payload'', ''{\"username\":{\"toString\":1}}''] claimed_world)
     = Inl (TypeError ''Cannot convert object to primitive value'') \<and>
   fst (ConsumerGroupService_processMessage demo_host demo_group_service ''user:events'' (1000, 0)
          [''eventType'', ''user.created'', ''payload'', ''{\"username\":{\"toString\":1}}''] claimed_world)
     = Inr () \<and>
   ack_calls (snd (ConsumerGroupService_processMessage demo_host demo_group_service ''user:events'' (1000, 0)
          [''eventType'', ''user.created'', ''payload'', ''{\"username\":{\"toString\":1}}''] claimed_world))
     = [] \<and>
   pending_ids (redis (snd (ConsumerGroupService_processMessage demo_host demo_group_service ''user:events''
          (1000, 0) [''eventType'', ''user.created'', ''payload'', ''{\"username\":{\"toString\":1}}'']
          claimed_world))) ''user:events'' ''user-processing-group'' = [(1000, 0)] \<and>
   map row_error (events (snd (ConsumerGroupService_processMessage demo_host demo_group_service
          ''user:events'' (1000, 0)
          [''eventType'', ''user.created'', ''payload'', ''{\"username\":{\"toString\":1}}''] claimed_world)))
     = [Some ''Cannot convert object to primitive value''] \<and>
   fst (ConsumerGroupService_handle demo_host demo_group_service ''user:events'' (1000, 0)
          [''eventType'', ''user.created'', ''payload'', ''{oops''] claimed_world)
     = Inl (SyntaxError ''Unexpected token in JSON'') \<and>
   ack_calls (snd (ConsumerGroupService_processMessage demo_host demo_group_service ''user:events'' (1000, 0)
          [''eventType'', ''user.created'', ''payload'', ''{oops''] claimed_world)) = [] \<and>
   pending_ids (redis (snd (ConsumerGroupService_processMessage demo_host demo_group_service ''user:events'' (1000, 0)
          [''eventType'', ''user.created'', ''payload'', ''{oops''] claimed_world)))
      ''user:events'' ''user-processing-group'' = [(1000, 0)]"
proof -
  let ?thrown = "[''eventType'', ''user.created'', ''payload'', ''{\"username\":{\"toString\":1}}'']"
  let ?unparsable = "[''eventType'', ''user.created'', ''payload'', ''{oops'']"
  have handler: "fst (handleUserCreated (JObj [(''username'', JObj [(''toString'', JNum 1)])]) claimed_world)
     = Inl (TypeError ''Cannot convert object to primitive value'')"
    by (simp add: step_defs)
  have thrown: "fst (ConsumerGroupService_handle demo_host demo_group_service ''user:events'' (1000, 0)
          ?thrown claimed_world) = Inl (TypeError ''Cannot convert object to primitive value'')"
    by (simp add: step_defs world_defs)
  have failed: "fst (ConsumerGroupService_handle demo_host demo_group_service ''user:events'' (1000, 0)
          ?unparsable claimed_world) = Inl (SyntaxError ''Unexpected token in JSON'')"
    by (simp add: step_defs world_defs)
  have before: "ack_calls claimed_world = []"
    "pending_ids (redis claimed_world) ''user:events'' ''user-processing-group'' = [(1000, 0)]"
    by (simp_all add: step_defs world_defs)
  have recorded: "map row_error (events (snd (ConsumerGroupService_processMessage demo_host
          demo_group_service ''user:events'' (1000, 0) ?thrown claimed_world)))
     = [Some ''Cannot convert object to primitive value'']"
    by (simp add: step_defs world_defs)
  from processMessage_catches_and_does_not_acknowledge [of demo_host demo_group_service
      "''user:events''" "(1000, 0)" ?thrown claimed_world "[]"] thrown before
  have 1: "fst (ConsumerGroupService_processMessage demo_host demo_group_service ''user:events'' (1000, 0)
          ?thrown claimed_world) = Inr ()"
    and 2: "ack_calls (snd (ConsumerGroupService_processMessage demo_host demo_group_service
          ''user:events'' (1000, 0) ?thrown claimed_world)) = []"
    and 3: "pending_ids (redis (snd (ConsumerGroupService_processMessage demo_host demo_group_service
          ''user:events'' (1000, 0) ?thrown claimed_world))) ''user:events'' ''user-processing-group''
        = [(1000, 0)]"
    by simp_all
  from processMessage_catches_and_does_not_acknowledge [of demo_host demo_group_service
      "''user:events''" "(1000, 0)" ?unparsable claimed_world "[]"] failed before
  have 4: "ack_calls (snd (ConsumerGroupService_processMessage demo_host demo_group_service
          ''user:events'' (1000, 0) ?unparsable claimed_world)) = []"
    and 5: "pending_ids (redis (snd (ConsumerGroupService_processMessage demo_host demo_group_service
          ''user:events'' (1000, 0) ?unparsable claimed_world))) ''user:events'' ''user-processing-group''
        = [(1000, 0)]"
    by simp_all
  from handler thrown 1 2 3 recorded failed 4 5 show ?thesis by (intro conjI)
qed

section \<open>C5: an unknown event type is logged and acknowledged\<close>

lemma handleEvent_switch_unknown:
  "t \<notin> Some ` set known_types \<Longrightarrow>
   handleEvent_switch t p w = (Inr (), log_to (UnknownEventType t) w)"
  by (auto simp: handleEvent_switch_def known_types_def)

lemma saveEventToDatabase_keeps:
  "db_update_fault (snd (saveEventToDatabase c s i t p w)) = db_update_fault w"
  by (cases "get_prop p ''userId''")
     (simp_all add: saveEventToDatabase_def Event_create_def log_to_def Let_def split: option.splits)

lemma saveEventToDatabase_row:
  "fst (saveEventToDatabase c s i t p w) = Inr () \<Longrightarrow>
   \<exists>r \<in> set (events (snd (saveEventToDatabase c s i t p w))). streamId r = i"
  by (cases "get_prop p ''userId''")
     (auto simp: saveEventToDatabase_def Event_create_def log_to_def Let_def split: option.splits if_splits)

lemma acknowledgeMessage_accepted:
  "refused (redis w) s = None \<Longrightarrow>
   \<exists>n. acknowledgeMessage s g i w
          = (Inr n, log_to (Acknowledged i g) (w\<lparr>redis := snd (xack s g i (redis w))\<rparr>))"
  using xack_accepts [of "redis w" s g i]
  by (auto simp: acknowledgeMessage_def redis_call_simps)

lemma acknowledgeMessage_refused:
  "refused (redis w) s = Some e \<Longrightarrow>
   acknowledgeMessage s g i w = (Inl e, log_to (AckError i e) w)"
  by (simp add: acknowledgeMessage_def redis_call_simps xack_refused)

lemma markEventAsProcessed_marks:
  "db_update_fault w = None \<Longrightarrow>
   markEventAsProcessed i w
     = (Inr (), w\<lparr>events := map (\<lambda>r. if streamId r = i then r\<lparr>processed := True, processedAt := Some (clock w)\<rparr> else r) (events w)\<rparr>)"
  by (simp add: markEventAsProcessed_def Event_update_def)

lemma markEventAsProcessed_quiet_console:
  "Processed i \<in> set (console (log_to (Processed i) w))"
  by (simp add: log_to_def)

lemma console_mono_markEventAsProcessed:
  "set (console w) \<subseteq> set (console (snd (markEventAsProcessed i w)))"
  by (auto simp: markEventAsProcessed_def Event_update_def log_to_def split: option.splits)

lemma ack_calls_log_to:
  "ack_calls (log_to l w) = (if is_ack_line l then ack_calls w @ [l] else ack_calls w)"
  by (simp add: ack_calls_def log_to_def)

lemma ack_calls_redis_update [simp]: "ack_calls (w\<lparr>redis := r\<rparr>) = ack_calls w"
  by (simp add: ack_calls_def)

lemma marked_rows:
  "\<forall>r \<in> set (map (\<lambda>r. if streamId r = i then r\<lparr>processed := True, processedAt := t\<rparr> else r) rs).
      streamId r = i \<longrightarrow> processed r"
proof (intro ballI impI)
  fix r
  assume "r \<in> set (map (\<lambda>r. if streamId r = i then r\<lparr>processed := True, processedAt := t\<rparr> else r) rs)"
    and r: "streamId r = i"
  then obtain x where x: "r = (if streamId x = i then x\<lparr>processed := True, processedAt := t\<rparr> else x)"
    by (auto simp only: set_map image_iff)
  show "processed r"
  proof (cases "streamId x = i")
    case True
    then show ?thesis unfolding x by simp
  next
    case False
    with x have "r = x" by simp
    with r False show ?thesis by simp
  qed
qed

text \<open>
  C5. For a message whose event type has no case in the \<open>switch\<close> of \<open>handleEvent\<close>, the
  dispatch table miss of a message that has reached the switch (its fields parsed, its
  event saved), the grouped consumer logs the unknown type and calls
  \<open>acknowledgeMessage\<close> exactly once, as for a message it has handled. When the store
  accepts the acknowledgement the entry is no longer pending and processing is logged as
  successful, and when the database accepts the update the saved event is marked
  processed.
\<close>

theorem unknown_event_type_is_acknowledged:
  assumes parsed: "parseMessageFields h fs = Inr md"
    and unknown: "md_eventType md \<notin> Some ` set known_types"
    and saved: "fst (saveEventToDatabase (groupName svc @ '':'' @ consumerName svc) s i
                       (md_eventType md) (md_payload md)
                       (log_to (Processing i s (md_eventType md)) w)) = Inr ()"
  shows "UnknownEventType (md_eventType md)
           \<in> set (console (snd (ConsumerGroupService_processMessage h svc s i fs w))) \<and>
         (\<exists>l. is_ack_line l \<and>
            ack_calls (snd (ConsumerGroupService_processMessage h svc s i fs w)) = ack_calls w @ [l]) \<and>
         redis (snd (ConsumerGroupService_processMessage h svc s i fs w))
           = snd (xack s (groupName svc) i (redis w)) \<and>
         (refused (redis w) s = None \<longrightarrow>
            ack_calls (snd (ConsumerGroupService_processMessage h svc s i fs w))
              = ack_calls w @ [Acknowledged i (groupName svc)] \<and>
            i \<notin> set (pending_ids (redis (snd (ConsumerGroupService_processMessage h svc s i fs w)))
                       s (groupName svc)) \<and>
            Processed i \<in> set (console (snd (ConsumerGroupService_processMessage h svc s i fs w))) \<and>
            (db_update_fault w = None \<longrightarrow>
               (\<exists>r \<in> set (events (snd (ConsumerGroupService_processMessage h svc s i fs w))).
                   streamId r = i) \<and>
               (\<forall>r \<in> set (events (snd (ConsumerGroupService_processMessage h svc s i fs w))).
                   streamId r = i \<longrightarrow> processed r)))"
proof -
  let ?save = "saveEventToDatabase (groupName svc @ '':'' @ consumerName svc) s i
                 (md_eventType md) (md_payload md) (log_to (Processing i s (md_eventType md)) w)"
  obtain w2 where save: "?save = (Inr (), w2)"
    using saved by (cases ?save) simp
  then have w2: "w2 = snd ?save" by simp
  let ?w3 = "log_to (UnknownEventType (md_eventType md)) w2"
  let ?w' = "snd (ConsumerGroupService_processMessage h svc s i fs w)"
  let ?g = "groupName svc"
  have handle: "ConsumerGroupService_handle h svc s i fs w = (Inr (), ?w3)"
    using parsed unknown save
    by (simp add: ConsumerGroupService_handle_def ConsumerGroupService_handleEvent_def
        handleEvent_switch_unknown)
  have q3: "quiet w ?w3"
    using quiet_saveEventToDatabase [of "log_to (Processing i s (md_eventType md)) w"
        "groupName svc @ '':'' @ consumerName svc" s i "md_eventType md" "md_payload md"]
    by (simp add: quiet_def ack_calls_log_to w2)
  have logged3: "UnknownEventType (md_eventType md) \<in> set (console ?w3)"
    by (simp add: log_to_def)
  show ?thesis
  proof (cases "refused (redis w) s")
    case (Some e)
    then have "refused (redis ?w3) s = Some e" using q3 by (simp add: quiet_def)
    then have ack: "acknowledgeMessage s ?g i ?w3 = (Inl e, log_to (AckError i e) ?w3)"
      by (rule acknowledgeMessage_refused)
    let ?w4 = "log_to (ProcessingError i e) (log_to (AckError i e) ?w3)"
    have w': "?w' = snd (handleProcessingError s i e ?w4)"
      by (simp add: ConsumerGroupService_processMessage_def handle ack)
    have q: "quiet ?w4 ?w'" unfolding w' by (rule quiet_handleProcessingError)
    have "UnknownEventType (md_eventType md) \<in> set (console ?w4)"
      by (simp add: log_to_def)
    then have 1: "UnknownEventType (md_eventType md) \<in> set (console ?w')"
      unfolding w' using console_handleProcessingError by blast
    have 2: "ack_calls ?w' = ack_calls w @ [AckError i e]"
      using q q3 by (simp add: quiet_def ack_calls_log_to)
    have 3: "redis ?w' = snd (xack s ?g i (redis w))"
      using q q3 Some by (simp add: quiet_def xack_refused)
    from 1 2 3 Some show ?thesis by auto
  next
    case None
    then have up3: "refused (redis ?w3) s = None" using q3 by (simp add: quiet_def)
    let ?w4 = "log_to (Acknowledged i ?g) (?w3\<lparr>redis := snd (xack s ?g i (redis w2))\<rparr>)"
    from acknowledgeMessage_accepted [OF up3, of ?g i]
    obtain n where ack: "acknowledgeMessage s ?g i ?w3 = (Inr n, ?w4)" by auto
    obtain w5 where mark: "markEventAsProcessed i ?w4 = (Inr (), w5)"
      by (cases "markEventAsProcessed i ?w4") (use markEventAsProcessed_returns [of i ?w4] in simp)
    then have w5: "w5 = snd (markEventAsProcessed i ?w4)" by simp
    have w': "?w' = log_to (Processed i) w5"
      by (simp add: ConsumerGroupService_processMessage_def handle ack mark)
    have q5: "quiet ?w4 w5" unfolding w5 by (rule quiet_markEventAsProcessed)
    have "UnknownEventType (md_eventType md) \<in> set (console ?w4)"
      by (simp add: log_to_def)
    then have "UnknownEventType (md_eventType md) \<in> set (console w5)"
      unfolding w5 using console_mono_markEventAsProcessed by blast
    then have 1: "UnknownEventType (md_eventType md) \<in> set (console ?w')"
      unfolding w' by (simp add: log_to_def)
    have 2: "ack_calls ?w' = ack_calls w @ [Acknowledged i ?g]"
      unfolding w' using q5 q3 by (simp add: quiet_def ack_calls_log_to)
    have 3: "redis ?w' = snd (xack s ?g i (redis w))"
      unfolding w' using q5 q3 by (simp add: quiet_def)
    have 4: "i \<notin> set (pending_ids (redis ?w') s ?g)"
      unfolding 3 using None by (rule pending_ids_xack)
    have 5: "Processed i \<in> set (console ?w')"
      unfolding w' by (simp add: log_to_def)
    have 6: "(\<exists>r \<in> set (events ?w'). streamId r = i) \<and>
             (\<forall>r \<in> set (events ?w'). streamId r = i \<longrightarrow> processed r)"
      if db: "db_update_fault w = None"
    proof -
      have "db_update_fault ?w4 = None"
        using db by (simp add: log_to_def saveEventToDatabase_keeps w2)
      from markEventAsProcessed_marks [OF this, of i]
      have ev: "events ?w' = map (\<lambda>r. if streamId r = i
                  then r\<lparr>processed := True, processedAt := Some (clock ?w4)\<rparr> else r) (events w2)"
        unfolding w' w5 by (simp add: log_to_def)
      from saveEventToDatabase_row [OF saved]
      obtain r where "r \<in> set (events w2)" "streamId r = i" unfolding w2 by blast
      then have "r\<lparr>processed := True, processedAt := Some (clock ?w4)\<rparr> \<in> set (events ?w')"
        unfolding ev by force
      then have "\<exists>r \<in> set (events ?w'). streamId r = i"
        using \<open>streamId r = i\<close> by (intro bexI) simp_all
      moreover have "\<forall>r \<in> set (events ?w'). streamId r = i \<longrightarrow> processed r"
        unfolding ev by (rule marked_rows)
      ultimately show ?thesis by blast
    qed
    from 1 2 3 4 5 6 None show ?thesis by auto
  qed
qed


theorem unknown_event_type_is_acknowledged_witness:
  "parseMessageFields demo_host [''eventType'', ''order.placed'', ''payload'', ''{}'']
     = Inr \<lparr>md_eventType = Some ''order.placed'', md_payload = JObj []\<rparr> \<and>
   Some ''order.placed'' \<notin> Some ` set known_types \<and>
   fst (saveEventToDatabase ''user-processing-group:consumer-1'' ''user:events'' (1000, 0)
          (Some ''order.placed'') (JObj [])
          (log_to (Processing (1000, 0) ''user:events'' (Some ''order.placed'')) claimed_world)) = Inr () \<and>
   refused (redis claimed_world) ''user:events'' = None \<and>
   db_update_fault claimed_world = None \<and>
   UnknownEventType (Some ''order.placed'')
     \<in> set (console (snd (ConsumerGroupService_processMessage demo_host demo_group_service ''user:events''
          (1000, 0) [''eventType'', ''order.placed'', ''payload'', ''{}''] claimed_world))) \<and>
   ack_calls (snd (ConsumerGroupService_processMessage demo_host demo_group_service ''user:events''
          (1000, 0) [''eventType'', ''order.placed'', ''payload'', ''{}''] claimed_world))
     = [Acknowledged (1000, 0) ''user-processing-group''] \<and>
   (1000, 0) \<notin> set (pending_ids (redis (snd (ConsumerGroupService_processMessage demo_host
          demo_group_service ''user:events'' (1000, 0)
          [''eventType'', ''order.placed'', ''payload'', ''{}''] claimed_world)))
          ''user:events'' ''user-processing-group'') \<and>
   map processed (events (snd (ConsumerGroupService_processMessage demo_host demo_group_service
          ''user:events'' (1000, 0) [''eventType'', ''order.placed'', ''payload'', ''{}''] claimed_world)))
     = [True]"
proof -
  let ?md = "\<lparr>md_eventType = Some ''order.placed'', md_payload = JObj []\<rparr>"
  have parsed: "parseMessageFields demo_host [''eventType'', ''order.placed'', ''payload'', ''{}''] = Inr ?md"
    by (simp add: step_defs world_defs)
  have unknown: "md_eventType ?md \<notin> Some ` set known_types"
    by (simp add: step_defs)
  have saved: "fst (saveEventToDatabase (groupName demo_group_service @ '':'' @ consumerName demo_group_service)
          ''user:events'' (1000, 0) (md_eventType ?md) (md_payload ?md)
          (log_to (Processing (1000, 0) ''user:events'' (md_eventType ?md)) claimed_world)) = Inr ()"
    by (simp add: step_defs world_defs)
  have up: "refused (redis claimed_world) ''user:events'' = None"
    and db: "db_update_fault claimed_world = None"
    and before: "ack_calls claimed_world = []"
    by (simp_all add: step_defs world_defs)
  have rows: "map processed (events (snd (ConsumerGroupService_processMessage demo_host demo_group_service
          ''user:events'' (1000, 0) [''eventType'', ''order.placed'', ''payload'', ''{}''] claimed_world)))
     = [True]"
    by (simp add: step_defs world_defs)
  have saved': "fst (saveEventToDatabase ''user-processing-group:consumer-1'' ''user:events'' (1000, 0)
          (Some ''order.placed'') (JObj [])
          (log_to (Processing (1000, 0) ''user:events'' (Some ''order.placed'')) claimed_world)) = Inr ()"
    by (simp add: step_defs world_defs)
  have gn: "groupName demo_group_service = ''user-processing-group''"
    by (simp add: demo_group_service_def ConsumerGroupService_def)
  have unknown': "Some ''order.placed'' \<notin> Some ` set known_types"
    by (simp add: step_defs)
  note T = unknown_event_type_is_acknowledged [OF parsed unknown saved]
  from T have c1: "UnknownEventType (Some ''order.placed'')
     \<in> set (console (snd (ConsumerGroupService_processMessage demo_host demo_group_service ''user:events''
          (1000, 0) [''eventType'', ''order.placed'', ''payload'', ''{}''] claimed_world)))"
    by simp
  from T up have "ack_calls (snd (ConsumerGroupService_processMessage demo_host demo_group_service ''user:events''
          (1000, 0) [''eventType'', ''order.placed'', ''payload'', ''{}''] claimed_world))
     = ack_calls claimed_world @ [Acknowledged (1000, 0) (groupName demo_group_service)]"
    by blast
  then have c2: "ack_calls (snd (ConsumerGroupService_processMessage demo_host demo_group_service ''user:events''
          (1000, 0) [''eventType'', ''order.placed'', ''payload'', ''{}''] claimed_world))
     = [Acknowledged (1000, 0) ''user-processing-group'']"
    by (simp add: gn before)
  from T up have "(1000, 0) \<notin> set (pending_ids (redis (snd (ConsumerGroupService_processMessage demo_host
          demo_group_service ''user:events'' (1000, 0)
          [''eventType'', ''order.placed'', ''payload'', ''{}''] claimed_world)))
          ''user:events'' (groupName demo_group_service))"
    by blast
  then have c3: "(1000, 0) \<notin> set (pending_ids (redis (snd (ConsumerGroupService_processMessage demo_host
          demo_group_service ''user:events'' (1000, 0)
          [''eventType'', ''order.placed'', ''payload'', ''{}''] claimed_world)))
          ''user:events'' ''user-processing-group'')"
    unfolding gn .
  from c1 c2 c3 parsed unknown' saved' up db rows show ?thesis by (intro conjI)
qed

section \<open>C3: batchPublish is all-or-nothing in what it returns\<close>

lemma show_nat_examples:
  "show_nat 0 = ''0''" "show_nat 1 = ''1''" "show_nat 1000 = ''1000''"
  by (simp_all add: show_nat.simps digit_char_def)


lemma id_less_next_id: "id_less t (next_id now t)"
  by (simp add: id_less_def next_id_def)

lemma addToStream_refused:
  "refused (redis w) s = Some e \<Longrightarrow>
   addToStream h s t p hint w = (Inl e, log_to (AddError s e) (w\<lparr>uuid_counter := Suc (uuid_counter w)\<rparr>))"
  by (simp add: addToStream_def redis_call_simps xadd_def Let_def)

lemma addToStream_auto:
  "refused (redis w) s = None \<Longrightarrow>
   addToStream h s t p None w =
     (Inr (next_id (server_time (redis w)) (top_id (get_log (redis w) s))),
      log_to (Added s t (next_id (server_time (redis w)) (top_id (get_log (redis w) s))))
        (w\<lparr>uuid_counter := Suc (uuid_counter w),
            redis := (redis w)\<lparr>logs := (logs (redis w))(s \<mapsto> (get_log (redis w) s)\<lparr>entries :=
               entries (get_log (redis w) s) @
                 [\<lparr>entry_id = next_id (server_time (redis w)) (top_id (get_log (redis w) s)),
                   entry_fields = [''eventType'', t, ''payload'', JSON_stringify h p,
                                   ''timestamp'', show_nat (clock w),
                                   ''id'', uuidv4 h (uuid_counter w)]\<rparr>]\<rparr>)\<rparr>\<rparr>))"
  by (simp add: addToStream_def redis_call_simps xadd_def Let_def id_less_next_id)






lemmas producer_defs = batchPublish_def addToStream_def redis_call_def xadd_def refused_def
  get_log_def empty_log_def top_id_def next_id_def id_less_def log_to_def Let_def
  mixed_world_def fresh_world_def empty_store_def user_created_event_def misdirected_event_def
  demo_host_def json_texts_def show_nat_examples

lemma outcomes_mixed:
  "fst (append_each demo_host [user_created_event, misdirected_event] mixed_world)
     = [Inr (1000, 0), Inl wrongtype]"
  by (simp add: producer_defs)




section \<open>Polling loops: general facts\<close>

lemma while_never_throws:
  assumes "\<And>s. fst (body s) = Inr ()"
  shows "while_isRunning running body interrupt ticks s \<noteq> Thrown e s'"
proof (induction ticks arbitrary: s)
  case Nil
  show ?case by simp
next
  case (Cons t ts)
  obtain r s1 where b: "body s = (r, s1)" by fastforce
  with assms [of s] have "r = Inr ()" by simp
  with b Cons show ?case by simp
qed

lemma while_stopped_not_running:
  "while_isRunning running body interrupt ticks s = Stopped s' \<Longrightarrow> \<not> running s'"
proof (induction ticks arbitrary: s)
  case Nil
  then show ?case by (simp split: if_splits)
next
  case (Cons t ts)
  obtain r s1 where b: "body s = (r, s1)" by fastforce
  show ?case
  proof (cases "running s")
    case False
    with Cons.prems show ?thesis by simp
  next
    case True
    with Cons.prems b show ?thesis
      by (cases r) (auto dest: Cons.IH)
  qed
qed

lemma while_invariant:
  assumes "I s" and "\<And>s. I s \<Longrightarrow> I (snd (body s))" and "\<And>t s. I s \<Longrightarrow> I (interrupt t s)"
  shows "I (outcome_state (while_isRunning running body interrupt ticks s))"
  using assms(1)
proof (induction ticks arbitrary: s)
  case Nil
  then show ?case by simp
next
  case (Cons t ts)
  obtain r s1 where b: "body s = (r, s1)" by fastforce
  with assms(2) [OF Cons.prems] have s1: "I s1" by simp
  then have "I (interrupt t s1)" by (rule assms(3))
  then have "I (outcome_state (while_isRunning running body interrupt ts (interrupt t s1)))"
    by (rule Cons.IH)
  with b s1 Cons.prems show ?case by (cases r) simp_all
qed

lemma while_stops_iff:
  assumes body: "\<And>s. fst (body s) = Inr ()"
    and keep: "\<And>s. running (snd (body s)) = running s"
    and intr: "\<And>t s. running (interrupt t s) = (running s \<and> \<not> stop_called t)"
    and "running s"
  shows "(\<exists>s'. while_isRunning running body interrupt ticks s = Stopped s')
           \<longleftrightarrow> (\<exists>t \<in> set ticks. stop_called t)"
  using \<open>running s\<close>
proof (induction ticks arbitrary: s)
  case Nil
  then show ?case by simp
next
  case (Cons t ts)
  obtain r s1 where b: "body s = (r, s1)" by fastforce
  with body [of s] have r: "r = Inr ()" by simp
  from keep [of s] b Cons.prems have run1: "running s1" by simp
  show ?case
  proof (cases "stop_called t")
    case True
    with intr [of t s1] have "\<not> running (interrupt t s1)" by simp
    then have "while_isRunning running body interrupt ts (interrupt t s1) = Stopped (interrupt t s1)"
      by (cases ts) simp_all
    with b r Cons.prems True show ?thesis by simp
  next
    case False
    with intr [of t s1] run1 have "running (interrupt t s1)" by simp
    from Cons.IH [OF this] b r Cons.prems False show ?thesis by simp
  qed
qed


lemma fst_in_world: "fst (in_world f fr) = fst (f (env fr))"
  by (cases "f (env fr)") (simp add: in_world_def)

lemma snd_in_world: "snd (in_world f fr) = fr\<lparr>env := snd (f (env fr))\<rparr>"
  by (cases "f (env fr)") (simp add: in_world_def)

lemma fst_sleep [simp]: "fst (sleep ms w) = Inr ()"
  and snd_sleep [simp]: "snd (sleep ms w) = w\<lparr>backoffs := backoffs w @ [ms]\<rparr>"
  by (simp_all add: sleep_def)

lemma each_message_returns:
  "fst (ConsumerGroupService_each_message h svc stream ms w) = Inr ()"
proof (induction ms arbitrary: w)
  case Nil
  show ?case by simp
next
  case (Cons m ms)
  obtain w1 where "ConsumerGroupService_processMessage h svc stream (fst m) (snd m) w = (Inr (), w1)"
    using processMessage_returns [of h svc stream "fst m" "snd m" w]
    by (cases "ConsumerGroupService_processMessage h svc stream (fst m) (snd m) w") simp
  with Cons show ?case by simp
qed

lemma each_stream_returns:
  "fst (ConsumerGroupService_each_stream h svc sms w) = Inr ()"
proof (induction sms arbitrary: w)
  case Nil
  show ?case by simp
next
  case (Cons sm sms)
  obtain w1 where "ConsumerGroupService_each_message h svc (fst sm) (snd sm) w = (Inr (), w1)"
    using each_message_returns [of h svc "fst sm" "snd sm" w]
    by (cases "ConsumerGroupService_each_message h svc (fst sm) (snd sm) w") simp
  with Cons show ?case by simp
qed

lemma ConsumerGroupService_poll_returns:
  "fst (ConsumerGroupService_poll h streamName batchSize blockTime fr) = Inr ()"
  by (simp add: ConsumerGroupService_poll_def fst_try_catch fst_await fst_in_world
      each_stream_returns split: sum.splits)

lemma ConsumerGroupService_poll_this:
  "this (snd (ConsumerGroupService_poll h streamName batchSize blockTime fr)) = this fr"
  by (simp add: ConsumerGroupService_poll_def snd_try_catch fst_await snd_await fst_in_world
      snd_in_world split: sum.splits)

lemma ConsumerGroupService_poll_backoff:
  assumes "fst (readFromConsumerGroup streamName (groupName (this fr)) (consumerName (this fr))
                  batchSize blockTime (env fr)) = Inl e"
  shows "snd (ConsumerGroupService_poll h streamName batchSize blockTime fr)
     = fr\<lparr>env := (log_to (LoopError (groupName (this fr)) e)
                     (snd (readFromConsumerGroup streamName (groupName (this fr))
                             (consumerName (this fr)) batchSize blockTime (env fr))))
                  \<lparr>backoffs := backoffs (snd (readFromConsumerGroup streamName (groupName (this fr))
                             (consumerName (this fr)) batchSize blockTime (env fr))) @ [1000]\<rparr>\<rparr>"
  using assms
  by (simp add: ConsumerGroupService_poll_def snd_try_catch fst_await snd_await fst_in_world
      snd_in_world log_to_def)

lemma ConsumerService_processMessage_returns:
  "fst (ConsumerService_processMessage h svc s i fs w) = Inr ()"
  by (simp add: ConsumerService_processMessage_def fst_try_catch split: sum.splits)


lemma ConsumerService_each_message_new:
  assumes "fst m \<notin> processedMessages (this fr)"
  shows "ConsumerService_each_message h advance stream (m # ms) fr
     = ConsumerService_each_message h advance stream ms
         (dispatch_step advance stream (fst m)
            (snd (ConsumerService_processMessage h (this fr) stream (fst m) (snd m) (env fr))) fr)"
proof -
  obtain w1 where p: "ConsumerService_processMessage h (this fr) stream (fst m) (snd m) (env fr) = (Inr (), w1)"
    using ConsumerService_processMessage_returns [of h "this fr" stream "fst m" "snd m" "env fr"]
    by (cases "ConsumerService_processMessage h (this fr) stream (fst m) (snd m) (env fr)") simp
  show ?thesis
    using assms by (simp add: in_world_def p dispatch_step_def)
qed

lemma ConsumerService_each_message_old:
  "fst m \<in> processedMessages (this fr) \<Longrightarrow>
   ConsumerService_each_message h advance stream (m # ms) fr
     = ConsumerService_each_message h advance stream ms fr"
  by simp

lemma ConsumerService_each_message_returns:
  "fst (ConsumerService_each_message h advance stream ms fr) = Inr ()"
proof (induction ms arbitrary: fr)
  case Nil
  show ?case by simp
next
  case (Cons m ms)
  show ?case
    by (cases "fst m \<in> processedMessages (this fr)")
       (simp_all only: ConsumerService_each_message_new ConsumerService_each_message_old Cons
          not_False_eq_True)
qed

lemma ConsumerService_each_message_preserves:
  assumes step: "\<And>fr i w. P fr \<Longrightarrow> i \<notin> processedMessages (this fr) \<Longrightarrow>
                   P (dispatch_step advance stream i w fr)"
    and "P fr"
  shows "P (snd (ConsumerService_each_message h advance stream ms fr))"
  using \<open>P fr\<close>
proof (induction ms arbitrary: fr)
  case Nil
  then show ?case by simp
next
  case (Cons m ms)
  show ?case
  proof (cases "fst m \<in> processedMessages (this fr)")
    case True
    with Cons show ?thesis by (simp only: ConsumerService_each_message_old)
  next
    case False
    from step [OF Cons.prems False] Cons.IH show ?thesis
      by (simp only: ConsumerService_each_message_new [OF False])
  qed
qed

lemma ConsumerService_each_stream_returns:
  "fst (ConsumerService_each_stream h advance sms fr) = Inr ()"
proof (induction sms arbitrary: fr)
  case Nil
  show ?case by simp
next
  case (Cons sm sms)
  obtain fr1 where "ConsumerService_each_message h advance (fst sm) (snd sm) fr = (Inr (), fr1)"
    using ConsumerService_each_message_returns [of h advance "fst sm" "snd sm" fr]
    by (cases "ConsumerService_each_message h advance (fst sm) (snd sm) fr") simp
  with Cons show ?case by simp
qed

lemma ConsumerService_each_stream_preserves:
  assumes step: "\<And>stream fr i w. P fr \<Longrightarrow> i \<notin> processedMessages (this fr) \<Longrightarrow>
                   P (dispatch_step advance stream i w fr)"
    and "P fr"
  shows "P (snd (ConsumerService_each_stream h advance sms fr))"
  using \<open>P fr\<close>
proof (induction sms arbitrary: fr)
  case Nil
  then show ?case by simp
next
  case (Cons sm sms)
  obtain fr1 where m: "ConsumerService_each_message h advance (fst sm) (snd sm) fr = (Inr (), fr1)"
    using ConsumerService_each_message_returns [of h advance "fst sm" "snd sm" fr]
    by (cases "ConsumerService_each_message h advance (fst sm) (snd sm) fr") simp
  have "P (snd (ConsumerService_each_message h advance (fst sm) (snd sm) fr))"
    using step Cons.prems by (rule ConsumerService_each_message_preserves)
  with m have "P fr1" by simp
  from Cons.IH [OF this] m show ?case by simp
qed

lemma ConsumerService_poll_returns:
  "fst (ConsumerService_poll h streamName batchSize pollInterval fr) = Inr ()"
  by (simp add: ConsumerService_poll_def fst_try_catch fst_await fst_in_world
      ConsumerService_each_stream_returns split: sum.splits)

lemma ConsumerService_pollMultiple_returns:
  "fst (ConsumerService_pollMultiple h batchSize pollInterval fr) = Inr ()"
  by (simp add: ConsumerService_pollMultiple_def fst_try_catch fst_await fst_in_world
      ConsumerService_each_stream_returns split: sum.splits)

lemma ConsumerService_poll_preserves:
  assumes step: "\<And>stream fr i w. P fr \<Longrightarrow> i \<notin> processedMessages (this fr) \<Longrightarrow>
                   P (dispatch_step (\<lambda>stream messageId startId. messageId) stream i w fr)"
    and world: "\<And>fr w. P fr \<Longrightarrow> P (fr\<lparr>env := w\<rparr>)"
    and "P fr"
  shows "P (snd (ConsumerService_poll h streamName batchSize pollInterval fr))"
proof -
  let ?read = "readFromStream streamName (cursor (vars fr)) batchSize (env fr)"
  let ?fr1 = "fr\<lparr>env := snd ?read\<rparr>"
  have fr1: "P ?fr1" using \<open>P fr\<close> by (rule world)
  show ?thesis
  proof (cases "fst ?read")
    case (Inl e)
    then show ?thesis
      using world [OF fr1]
      by (simp add: ConsumerService_poll_def snd_try_catch fst_await snd_await fst_in_world snd_in_world)
  next
    case (Inr messages)
    show ?thesis
    proof (cases "length messages > 0")
      case True
      have "P (snd (ConsumerService_each_stream h (\<lambda>stream messageId startId. messageId) messages ?fr1))"
        using step fr1 by (rule ConsumerService_each_stream_preserves)
      with Inr True show ?thesis
        by (simp add: ConsumerService_poll_def snd_try_catch fst_await snd_await fst_in_world
            snd_in_world ConsumerService_each_stream_returns)
    next
      case False
      with Inr show ?thesis
        using world [OF fr1]
        by (simp add: ConsumerService_poll_def snd_try_catch fst_await snd_await fst_in_world snd_in_world)
    qed
  qed
qed

lemma ConsumerService_pollMultiple_preserves:
  assumes step: "\<And>stream fr i w. P fr \<Longrightarrow> i \<notin> processedMessages (this fr) \<Longrightarrow>
                   P (dispatch_step update_stream_id stream i w fr)"
    and world: "\<And>fr w. P fr \<Longrightarrow> P (fr\<lparr>env := w\<rparr>)"
    and "P fr"
  shows "P (snd (ConsumerService_pollMultiple h batchSize pollInterval fr))"
proof -
  let ?read = "readFromStreams (cursor (vars fr)) batchSize (env fr)"
  let ?fr1 = "fr\<lparr>env := snd ?read\<rparr>"
  have fr1: "P ?fr1" using \<open>P fr\<close> by (rule world)
  show ?thesis
  proof (cases "fst ?read")
    case (Inl e)
    then show ?thesis
      using world [OF fr1]
      by (simp add: ConsumerService_pollMultiple_def snd_try_catch fst_await snd_await fst_in_world snd_in_world)
  next
    case (Inr messages)
    show ?thesis
    proof (cases "length messages > 0")
      case True
      have "P (snd (ConsumerService_each_stream h update_stream_id messages ?fr1))"
        using step fr1 by (rule ConsumerService_each_stream_preserves)
      with Inr True show ?thesis
        by (simp add: ConsumerService_pollMultiple_def snd_try_catch fst_await snd_await fst_in_world
            snd_in_world ConsumerService_each_stream_returns)
    next
      case False
      with Inr show ?thesis
        using world [OF fr1]
        by (simp add: ConsumerService_pollMultiple_def snd_try_catch fst_await snd_await fst_in_world snd_in_world)
    qed
  qed
qed

lemma ConsumerService_interrupt_preserves:
  assumes world: "\<And>fr w. P fr \<Longrightarrow> P (fr\<lparr>env := w\<rparr>)"
    and flag: "\<And>fr b. P fr \<Longrightarrow> P (fr\<lparr>this := (this fr)\<lparr>cs_isRunning := b\<rparr>\<rparr>)"
    and "P fr"
  shows "P (ConsumerService_interrupt t fr)"
proof -
  have 1: "P (fr\<lparr>env := external t (env fr)\<rparr>)" using \<open>P fr\<close> by (rule world)
  have "P ((fr\<lparr>env := external t (env fr)\<rparr>)\<lparr>this := (this (fr\<lparr>env := external t (env fr)\<rparr>))\<lparr>cs_isRunning := False\<rparr>\<rparr>)"
    using 1 by (rule flag)
  from world [OF this, of "log_to (Stopping (consumerId (this fr))) (external t (env fr))"] 1
  show ?thesis
    by (simp add: ConsumerService_interrupt_def ConsumerService_stop_def Let_def)
qed


text \<open>Unfolding the worked runs of the loops.\<close>

lemmas loop_defs = ConsumerService_startConsuming_def ConsumerService_startConsumingMultiple_def
  ConsumerGroupService_startConsuming_def ConsumerService_enter_def ConsumerService_poll_def
  ConsumerService_pollMultiple_def ConsumerGroupService_poll_def ConsumerService_interrupt_def
  ConsumerGroupService_interrupt_def ConsumerService_stop_def ConsumerGroupService_stop_def
  ConsumerService_processMessage_def ConsumerService_handle_def ConsumerService_handleEvent_def
  in_world_def sleep_def readFromStream_def readFromStreams_def readFromConsumerGroup_def
  xread_def xlen_def xreadgroup_def entries_after_def id_less_def Let_def
  show_id_def show_nat_examples parse_id_def parse_nat_def digit_of_def empty_log_def
  example_consumer_def ConsumerService_def idle_tick_def stop_tick_def
  unparsable_world_def two_streams_world_def down_world_def


section \<open>C7: the polling loops exit only when stopped\<close>

lemma backoffs_readFromConsumerGroup:
  "backoffs (snd (readFromConsumerGroup s g c n bt w)) = backoffs w"
  by (cases "xreadgroup g c n bt s (redis w)"; cases "fst (xreadgroup g c n bt s (redis w))")
     (simp_all add: readFromConsumerGroup_def redis_call_def log_to_def)

lemma backoffs_readFromStream:
  "backoffs (snd (readFromStream s start n w)) = backoffs w"
  by (cases "xread n [s, show_id start] (redis w)")
     (simp_all add: readFromStream_def log_to_def)

lemma ConsumerService_poll_backoff:
  assumes "fst (readFromStream streamName (cursor (vars fr)) batchSize (env fr)) = Inl e"
  shows "backoffs (env (snd (ConsumerService_poll h streamName batchSize pollInterval fr)))
     = backoffs (env fr) @ [pollInterval]"
  using assms
  by (simp add: ConsumerService_poll_def snd_try_catch fst_await snd_await fst_in_world
      snd_in_world log_to_def backoffs_readFromStream)

lemma ConsumerService_poll_flag:
  "cs_isRunning (this (snd (ConsumerService_poll h streamName batchSize pollInterval fr)))
     = cs_isRunning (this fr)"
  by (rule ConsumerService_poll_preserves [where P = "\<lambda>fr'. cs_isRunning (this fr') = cs_isRunning (this fr)"])
     (simp_all add: dispatch_step_def)

lemma ConsumerService_interrupt_flag:
  "cs_isRunning (this (ConsumerService_interrupt t fr)) = (cs_isRunning (this fr) \<and> \<not> stop_called t)"
  by (simp add: ConsumerService_interrupt_def ConsumerService_stop_def Let_def)

lemma ConsumerGroupService_interrupt_flag:
  "isRunning (this (ConsumerGroupService_interrupt t fr)) = (isRunning (this fr) \<and> \<not> stop_called t)"
  by (simp add: ConsumerGroupService_interrupt_def ConsumerGroupService_stop_def Let_def)

text \<open>
  C7. For the grouped and the simple consumer alike, \<open>startConsuming\<close> never throws, as
  no iteration of its loop does; it exits exactly when \<open>stop()\<close> has been called, and
  then \<open>isRunning\<close> is false. An iteration whose read from the store fails returns
  normally after one sleep of the fixed backoff (1000 ms in the grouped consumer, the
  poll interval in the simple one), with \<open>isRunning\<close> as it was, so the loop goes on to
  its next iteration.
\<close>

theorem polling_loops_exit_only_on_stop:
  "ConsumerGroupService_startConsuming h streamName batchSize blockTime ticks gsvc w \<noteq> Thrown e gfr \<and>
   ((\<exists>fr. ConsumerGroupService_startConsuming h streamName batchSize blockTime ticks gsvc w = Stopped fr)
      \<longleftrightarrow> (\<exists>t \<in> set ticks. stop_called t)) \<and>
   (\<forall>fr. ConsumerGroupService_startConsuming h streamName batchSize blockTime ticks gsvc w = Stopped fr
      \<longrightarrow> \<not> isRunning (this fr)) \<and>
   (\<forall>fr err. fst (readFromConsumerGroup streamName (groupName (this fr)) (consumerName (this fr))
                    batchSize blockTime (env fr)) = Inl err \<longrightarrow>
      fst (ConsumerGroupService_poll h streamName batchSize blockTime fr) = Inr () \<and>
      this (snd (ConsumerGroupService_poll h streamName batchSize blockTime fr)) = this fr \<and>
      backoffs (env (snd (ConsumerGroupService_poll h streamName batchSize blockTime fr)))
        = backoffs (env fr) @ [1000]) \<and>
   ConsumerService_startConsuming h streamName startId batchSize pollInterval ticks svc w \<noteq> Thrown e sfr \<and>
   ((\<exists>fr. ConsumerService_startConsuming h streamName startId batchSize pollInterval ticks svc w = Stopped fr)
      \<longleftrightarrow> (\<exists>t \<in> set ticks. stop_called t)) \<and>
   (\<forall>fr. ConsumerService_startConsuming h streamName startId batchSize pollInterval ticks svc w = Stopped fr
      \<longrightarrow> \<not> cs_isRunning (this fr)) \<and>
   (\<forall>fr err. fst (readFromStream streamName (cursor (vars fr)) batchSize (env fr)) = Inl err \<longrightarrow>
      fst (ConsumerService_poll h streamName batchSize pollInterval fr) = Inr () \<and>
      cs_isRunning (this (snd (ConsumerService_poll h streamName batchSize pollInterval fr)))
        = cs_isRunning (this fr) \<and>
      backoffs (env (snd (ConsumerService_poll h streamName batchSize pollInterval fr)))
        = backoffs (env fr) @ [pollInterval])"
proof (intro conjI allI impI)
  show "ConsumerGroupService_startConsuming h streamName batchSize blockTime ticks gsvc w \<noteq> Thrown e gfr"
    unfolding ConsumerGroupService_startConsuming_def
    by (rule while_never_throws) (rule ConsumerGroupService_poll_returns)
  show "(\<exists>fr. ConsumerGroupService_startConsuming h streamName batchSize blockTime ticks gsvc w = Stopped fr)
      \<longleftrightarrow> (\<exists>t \<in> set ticks. stop_called t)"
    unfolding ConsumerGroupService_startConsuming_def
    by (rule while_stops_iff)
       (simp_all add: ConsumerGroupService_poll_returns ConsumerGroupService_poll_this
          ConsumerGroupService_interrupt_flag)
  show "ConsumerService_startConsuming h streamName startId batchSize pollInterval ticks svc w \<noteq> Thrown e sfr"
    unfolding ConsumerService_startConsuming_def
    by (rule while_never_throws) (rule ConsumerService_poll_returns)
  show "(\<exists>fr. ConsumerService_startConsuming h streamName startId batchSize pollInterval ticks svc w = Stopped fr)
      \<longleftrightarrow> (\<exists>t \<in> set ticks. stop_called t)"
    unfolding ConsumerService_startConsuming_def
    by (rule while_stops_iff)
       (simp_all add: ConsumerService_poll_returns ConsumerService_poll_flag
          ConsumerService_interrupt_flag ConsumerService_enter_def)
next
  fix fr
  assume "ConsumerGroupService_startConsuming h streamName batchSize blockTime ticks gsvc w = Stopped fr"
  then show "\<not> isRunning (this fr)"
    unfolding ConsumerGroupService_startConsuming_def by (rule while_stopped_not_running)
next
  fix fr
  assume "ConsumerService_startConsuming h streamName startId batchSize pollInterval ticks svc w = Stopped fr"
  then show "\<not> cs_isRunning (this fr)"
    unfolding ConsumerService_startConsuming_def by (rule while_stopped_not_running)
next
  fix fr :: "(consumer_group_service, unit) frame" and err
  assume failed: "fst (readFromConsumerGroup streamName (groupName (this fr)) (consumerName (this fr))
                    batchSize blockTime (env fr)) = Inl err"
  show "fst (ConsumerGroupService_poll h streamName batchSize blockTime fr) = Inr ()"
    by (rule ConsumerGroupService_poll_returns)
  show "this (snd (ConsumerGroupService_poll h streamName batchSize blockTime fr)) = this fr"
    by (rule ConsumerGroupService_poll_this)
  show "backoffs (env (snd (ConsumerGroupService_poll h streamName batchSize blockTime fr)))
        = backoffs (env fr) @ [1000]"
    by (simp add: ConsumerGroupService_poll_backoff [OF failed] backoffs_readFromConsumerGroup)
next
  fix fr :: "(consumer_service, msg_id run_vars) frame" and err
  assume failed: "fst (readFromStream streamName (cursor (vars fr)) batchSize (env fr)) = Inl err"
  show "fst (ConsumerService_poll h streamName batchSize pollInterval fr) = Inr ()"
    by (rule ConsumerService_poll_returns)
  show "cs_isRunning (this (snd (ConsumerService_poll h streamName batchSize pollInterval fr)))
        = cs_isRunning (this fr)"
    by (rule ConsumerService_poll_flag)
  show "backoffs (env (snd (ConsumerService_poll h streamName batchSize pollInterval fr)))
        = backoffs (env fr) @ [pollInterval]"
    using failed by (rule ConsumerService_poll_backoff)
qed


theorem polling_loops_exit_only_on_stop_witness:
  "is_stopped (ConsumerGroupService_startConsuming demo_host ''user:events'' 1 1000
      [idle_tick, stop_tick] demo_group_service down_world) \<and>
   \<not> isRunning (this (outcome_state (ConsumerGroupService_startConsuming demo_host ''user:events'' 1 1000
      [idle_tick, stop_tick] demo_group_service down_world))) \<and>
   backoffs (env (outcome_state (ConsumerGroupService_startConsuming demo_host ''user:events'' 1 1000
      [idle_tick, stop_tick] demo_group_service down_world))) = [1000, 1000] \<and>
   fst (readFromConsumerGroup ''user:events'' ''user-processing-group'' ''consumer-1'' 1 1000 down_world)
     = Inl (ReplyError ''Connection is closed.'') \<and>
   backoffs (env (snd (ConsumerGroupService_poll demo_host ''user:events'' 1 1000
      \<lparr>this = demo_group_service, vars = (), env = down_world\<rparr>))) = [1000] \<and>
   is_stopped (ConsumerService_startConsuming demo_host ''user:events'' (0, 0) 1 250
      [idle_tick, stop_tick] example_consumer down_world) \<and>
   \<not> cs_isRunning (this (outcome_state (ConsumerService_startConsuming demo_host ''user:events'' (0, 0) 1 250
      [idle_tick, stop_tick] example_consumer down_world))) \<and>
   backoffs (env (outcome_state (ConsumerService_startConsuming demo_host ''user:events'' (0, 0) 1 250
      [idle_tick, stop_tick] example_consumer down_world))) = [250, 250] \<and>
   fst (readFromStream ''user:events'' (0, 0) 1 down_world) = Inl (ReplyError ''Connection is closed.'') \<and>
   backoffs (env (snd (ConsumerService_poll demo_host ''user:events'' 1 250
      \<lparr>this = example_consumer, vars = \<lparr>cursor = (0, 0), dispatched = []\<rparr>, env = down_world\<rparr>))) = [250]"
proof -
  let ?grun = "ConsumerGroupService_startConsuming demo_host ''user:events'' 1 1000
      [idle_tick, stop_tick] demo_group_service down_world"
  let ?run = "ConsumerService_startConsuming demo_host ''user:events'' (0, 0) 1 250
      [idle_tick, stop_tick] example_consumer down_world"
  let ?gfr = "\<lparr>this = demo_group_service, vars = (), env = down_world\<rparr>"
  let ?fr = "\<lparr>this = example_consumer, vars = \<lparr>cursor = (0, 0) :: msg_id, dispatched = []\<rparr>,
              env = down_world\<rparr>"
  note T = polling_loops_exit_only_on_stop [where h = demo_host and streamName = "''user:events''"
      and batchSize = 1 and blockTime = 1000 and ticks = "[idle_tick, stop_tick]"
      and gsvc = demo_group_service and w = down_world and startId = "(0, 0)" and pollInterval = 250
      and svc = example_consumer]
  have stop: "\<exists>t \<in> set [idle_tick, stop_tick]. stop_called t"
    by (simp add: stop_tick_def)
  from T stop obtain gfr' where g: "?grun = Stopped gfr'" by blast
  with T have g1: "is_stopped ?grun" and g2: "\<not> isRunning (this (outcome_state ?grun))"
    by simp_all
  from T stop obtain fr' where r: "?run = Stopped fr'" by blast
  with T have r1: "is_stopped ?run" and r2: "\<not> cs_isRunning (this (outcome_state ?run))"
    by simp_all
  have g3: "backoffs (env (outcome_state ?grun)) = [1000, 1000]"
    and r3: "backoffs (env (outcome_state ?run)) = [250, 250]"
    by (simp_all add: loop_defs step_defs world_defs)
  have gread: "fst (readFromConsumerGroup ''user:events'' (groupName (this ?gfr)) (consumerName (this ?gfr))
      1 1000 (env ?gfr)) = Inl (ReplyError ''Connection is closed.'')"
    and read: "fst (readFromStream ''user:events'' (cursor (vars ?fr)) 1 (env ?fr))
      = Inl (ReplyError ''Connection is closed.'')"
    by (simp_all add: loop_defs step_defs world_defs)
  from T gread have "backoffs (env (snd (ConsumerGroupService_poll demo_host ''user:events'' 1 1000 ?gfr)))
      = backoffs (env ?gfr) @ [1000]"
    by blast
  then have g4: "backoffs (env (snd (ConsumerGroupService_poll demo_host ''user:events'' 1 1000 ?gfr))) = [1000]"
    by (simp add: world_defs down_world_def)
  from T have "\<forall>fr err. fst (readFromStream ''user:events'' (cursor (vars fr)) 1 (env fr)) = Inl err \<longrightarrow>
      backoffs (env (snd (ConsumerService_poll demo_host ''user:events'' 1 250 fr)))
        = backoffs (env fr) @ [250]"
    by blast
  from this [rule_format, OF read]
  have "backoffs (env (snd (ConsumerService_poll demo_host ''user:events'' 1 250 ?fr)))
      = backoffs (env ?fr) @ [250]" .
  then have r4: "backoffs (env (snd (ConsumerService_poll demo_host ''user:events'' 1 250 ?fr))) = [250]"
    by (simp add: world_defs down_world_def)
  have gread': "fst (readFromConsumerGroup ''user:events'' ''user-processing-group'' ''consumer-1'' 1 1000 down_world)
     = Inl (ReplyError ''Connection is closed.'')"
    and read': "fst (readFromStream ''user:events'' (0, 0) 1 down_world) = Inl (ReplyError ''Connection is closed.'')"
    by (simp_all add: loop_defs step_defs world_defs)
  from g1 g2 g3 gread' g4 r1 r2 r3 read' r4 show ?thesis by (intro conjI)
qed

section \<open>C10: the simple consumer hands each message id to processMessage at most once\<close>

lemma at_most_once_step:
  "at_most_once seen fr \<Longrightarrow> i \<notin> processedMessages (this fr) \<Longrightarrow>
   at_most_once seen (dispatch_step advance stream i w fr)"
  by (auto simp: at_most_once_def dispatch_step_def)

lemma at_most_once_world: "at_most_once seen fr \<Longrightarrow> at_most_once seen (fr\<lparr>env := w\<rparr>)"
  by (simp add: at_most_once_def)

lemma at_most_once_flag:
  "at_most_once seen fr \<Longrightarrow> at_most_once seen (fr\<lparr>this := (this fr)\<lparr>cs_isRunning := b\<rparr>\<rparr>)"
  by (simp add: at_most_once_def)

lemma at_most_once_enter: "at_most_once (processedMessages svc) (ConsumerService_enter svc c w)"
  by (simp add: at_most_once_def ConsumerService_enter_def)

lemma startConsuming_at_most_once:
  "at_most_once (processedMessages svc)
     (outcome_state (ConsumerService_startConsuming h streamName startId batchSize pollInterval ticks svc w))"
  unfolding ConsumerService_startConsuming_def
  by (rule while_invariant)
     (auto intro: at_most_once_enter ConsumerService_poll_preserves ConsumerService_interrupt_preserves
        at_most_once_step at_most_once_world at_most_once_flag)

lemma startConsumingMultiple_at_most_once:
  "at_most_once (processedMessages svc)
     (outcome_state (ConsumerService_startConsumingMultiple h strs batchSize pollInterval ticks svc w))"
  unfolding ConsumerService_startConsumingMultiple_def
  by (rule while_invariant)
     (auto intro: at_most_once_enter ConsumerService_pollMultiple_preserves ConsumerService_interrupt_preserves
        at_most_once_step at_most_once_world at_most_once_flag)

text \<open>
  C10. In a run of \<open>startConsuming\<close> or \<open>startConsumingMultiple\<close>, whatever the reads
  return, the message ids handed to \<open>processMessage\<close> are pairwise distinct and none of
  them was in \<open>processedMessages\<close> when the run began; the set only grows, by exactly
  those ids; and a message whose id is already in the set is skipped.
\<close>

theorem each_message_id_dispatched_at_most_once:
  "distinct (map snd (dispatched (vars (outcome_state
      (ConsumerService_startConsuming h streamName startId batchSize pollInterval ticks svc w))))) \<and>
   set (map snd (dispatched (vars (outcome_state
      (ConsumerService_startConsuming h streamName startId batchSize pollInterval ticks svc w)))))
     \<inter> processedMessages svc = {} \<and>
   processedMessages (this (outcome_state
      (ConsumerService_startConsuming h streamName startId batchSize pollInterval ticks svc w)))
     = processedMessages svc \<union> set (map snd (dispatched (vars (outcome_state
      (ConsumerService_startConsuming h streamName startId batchSize pollInterval ticks svc w))))) \<and>
   distinct (map snd (dispatched (vars (outcome_state
      (ConsumerService_startConsumingMultiple h strs batchSize pollInterval ticks svc w))))) \<and>
   set (map snd (dispatched (vars (outcome_state
      (ConsumerService_startConsumingMultiple h strs batchSize pollInterval ticks svc w)))))
     \<inter> processedMessages svc = {} \<and>
   processedMessages (this (outcome_state
      (ConsumerService_startConsumingMultiple h strs batchSize pollInterval ticks svc w)))
     = processedMessages svc \<union> set (map snd (dispatched (vars (outcome_state
      (ConsumerService_startConsumingMultiple h strs batchSize pollInterval ticks svc w))))) \<and>
   (\<forall>(fr :: (consumer_service, msg_id run_vars) frame) advance stream m ms.
      fst m \<in> processedMessages (this fr) \<longrightarrow>
        ConsumerService_each_message h advance stream (m # ms) fr
          = ConsumerService_each_message h advance stream ms fr)"
  using startConsuming_at_most_once [of svc h streamName startId batchSize pollInterval ticks w]
    startConsumingMultiple_at_most_once [of svc h strs batchSize pollInterval ticks w]
  by (simp add: at_most_once_def)


theorem each_message_id_dispatched_at_most_once_witness:
  "dispatched (vars (outcome_state (ConsumerService_startConsuming demo_host ''user:events'' (0, 0) 5 1000
      [stop_tick] example_consumer claimed_world))) = [(''user:events'', (1000, 0))] \<and>
   processedMessages (this (outcome_state (ConsumerService_startConsuming demo_host ''user:events'' (0, 0)
      5 1000 [stop_tick] example_consumer claimed_world))) = {(1000, 0)} \<and>
   dispatched (vars (outcome_state (ConsumerService_startConsumingMultiple demo_host
      [(''user:events'', (0, 0)), (''task:queue'', (0, 0))] 5 1000
      [stop_tick] example_consumer claimed_world))) = [(''user:events'', (1000, 0))] \<and>
   processedMessages (this (outcome_state (ConsumerService_startConsumingMultiple demo_host
      [(''user:events'', (0, 0)), (''task:queue'', (0, 0))] 5 1000
      [stop_tick] example_consumer claimed_world))) = {(1000, 0)} \<and>
   ConsumerService_each_message demo_host (\<lambda>stream messageId startId. messageId) ''user:events''
      [((1000, 0), [])]
      (outcome_state (ConsumerService_startConsuming demo_host ''user:events'' (0, 0)
         5 1000 [stop_tick] example_consumer claimed_world))
     = (Inr (), outcome_state (ConsumerService_startConsuming demo_host ''user:events'' (0, 0)
         5 1000 [stop_tick] example_consumer claimed_world)) \<and>
   fst (readFromStreams [(''user:events'', (0, 0)), (''task:queue'', (0, 0))] 5 two_streams_world)
     = Inl (ReplyError ''ERR Invalid stream ID specified as stream command argument'') \<and>
   dispatched (vars (outcome_state (ConsumerService_startConsumingMultiple demo_host
      [(''user:events'', (0, 0)), (''task:queue'', (0, 0))] 5 1000
      [stop_tick] example_consumer two_streams_world))) = [] \<and>
   backoffs (env (outcome_state (ConsumerService_startConsumingMultiple demo_host
      [(''user:events'', (0, 0)), (''task:queue'', (0, 0))] 5 1000
      [stop_tick] example_consumer two_streams_world))) = [1000]"
proof -
  let ?run = "ConsumerService_startConsuming demo_host ''user:events'' (0, 0) 5 1000
      [stop_tick] example_consumer claimed_world"
  let ?runM = "ConsumerService_startConsumingMultiple demo_host
      [(''user:events'', (0, 0)), (''task:queue'', (0, 0))] 5 1000
      [stop_tick] example_consumer claimed_world"
  note T = each_message_id_dispatched_at_most_once [where h = demo_host and streamName = "''user:events''"
      and startId = "(0, 0)" and batchSize = 5 and pollInterval = 1000 and ticks = "[stop_tick]"
      and svc = example_consumer and w = claimed_world
      and strs = "[(''user:events'', (0, 0)), (''task:queue'', (0, 0))]"]
  have d: "dispatched (vars (outcome_state ?run)) = [(''user:events'', (1000, 0))]"
    and dM: "dispatched (vars (outcome_state ?runM)) = [(''user:events'', (1000, 0))]"
    by (simp_all add: loop_defs step_defs world_defs)
  have seen: "processedMessages example_consumer = {}"
    by (simp add: example_consumer_def ConsumerService_def)
  from T have "processedMessages (this (outcome_state ?run))
      = processedMessages example_consumer \<union> set (map snd (dispatched (vars (outcome_state ?run))))"
    by blast
  with d seen have p: "processedMessages (this (outcome_state ?run)) = {(1000, 0)}" by simp
  from T have "processedMessages (this (outcome_state ?runM))
      = processedMessages example_consumer \<union> set (map snd (dispatched (vars (outcome_state ?runM))))"
    by blast
  with dM seen have pM: "processedMessages (this (outcome_state ?runM)) = {(1000, 0)}" by simp
  from p have "fst ((1000, 0), []) \<in> processedMessages (this (outcome_state ?run))" by simp
  with T have "ConsumerService_each_message demo_host (\<lambda>stream messageId startId. messageId) ''user:events''
      (((1000, 0), []) # []) (outcome_state ?run)
     = ConsumerService_each_message demo_host (\<lambda>stream messageId startId. messageId) ''user:events''
      [] (outcome_state ?run)"
    by blast
  then have skip: "ConsumerService_each_message demo_host (\<lambda>stream messageId startId. messageId)
      ''user:events'' [((1000, 0), [])] (outcome_state ?run) = (Inr (), outcome_state ?run)"
    by (simp only: ConsumerService_each_message.simps)
  have rejected: "fst (readFromStreams [(''user:events'', (0, 0)), (''task:queue'', (0, 0))] 5
      two_streams_world)
     = Inl (ReplyError ''ERR Invalid stream ID specified as stream command argument'')"
    and none: "dispatched (vars (outcome_state (ConsumerService_startConsumingMultiple demo_host
      [(''user:events'', (0, 0)), (''task:queue'', (0, 0))] 5 1000
      [stop_tick] example_consumer two_streams_world))) = []"
    and slept: "backoffs (env (outcome_state (ConsumerService_startConsumingMultiple demo_host
      [(''user:events'', (0, 0)), (''task:queue'', (0, 0))] 5 1000
      [stop_tick] example_consumer two_streams_world))) = [1000]"
    by (simp_all add: loop_defs step_defs world_defs)
  from d p dM pM skip rejected none slept show ?thesis by (intro conjI)
qed

section \<open>C6: the simple consumer's cursor\<close>

lemma follows_dispatch_step:
  "follows_dispatch start fr \<Longrightarrow>
   follows_dispatch start (dispatch_step (\<lambda>stream messageId startId. messageId) stream i w fr)"
  by (simp add: follows_dispatch_def dispatch_step_def)

lemma startConsuming_follows_dispatch:
  "follows_dispatch startId
     (outcome_state (ConsumerService_startConsuming h streamName startId batchSize pollInterval ticks svc w))"
  unfolding ConsumerService_startConsuming_def
proof (rule while_invariant)
  show "follows_dispatch startId (ConsumerService_enter svc startId w)"
    by (simp add: follows_dispatch_def ConsumerService_enter_def)
next
  fix fr :: "(consumer_service, msg_id run_vars) frame"
  assume "follows_dispatch startId fr"
  then show "follows_dispatch startId (snd (ConsumerService_poll h streamName batchSize pollInterval fr))"
    by (rule ConsumerService_poll_preserves [rotated 2])
       (simp_all add: follows_dispatch_step, simp add: follows_dispatch_def)
next
  fix t and fr :: "(consumer_service, msg_id run_vars) frame"
  assume "follows_dispatch startId fr"
  then show "follows_dispatch startId (ConsumerService_interrupt t fr)"
    by (rule ConsumerService_interrupt_preserves [rotated 2])
       (simp_all add: follows_dispatch_def)
qed

text \<open>
  C6 (as amended). In the simple consumer's polling loop the cursor \<open>startId\<close> is, at
  every moment, the id of the last message handed to \<open>processMessage\<close> (the start id
  before the first): every message that is not already in \<open>processedMessages\<close> is
  handed to \<open>processMessage\<close>, which never throws, and the cursor then moves to its id
  whether its handling succeeded or failed.
\<close>

theorem cursor_follows_every_dispatched_message:
  "cursor (vars (outcome_state
      (ConsumerService_startConsuming h streamName startId batchSize pollInterval ticks svc w)))
     = last (startId # map snd (dispatched (vars (outcome_state
         (ConsumerService_startConsuming h streamName startId batchSize pollInterval ticks svc w))))) \<and>
   (\<forall>(fr :: (consumer_service, msg_id run_vars) frame) stream i fs.
      i \<notin> processedMessages (this fr) \<longrightarrow>
        fst (ConsumerService_each_message h (\<lambda>stream messageId startId. messageId) stream [(i, fs)] fr)
          = Inr () \<and>
        cursor (vars (snd (ConsumerService_each_message h (\<lambda>stream messageId startId. messageId)
                             stream [(i, fs)] fr))) = i \<and>
        dispatched (vars (snd (ConsumerService_each_message h (\<lambda>stream messageId startId. messageId)
                             stream [(i, fs)] fr))) = dispatched (vars fr) @ [(stream, i)] \<and>
        env (snd (ConsumerService_each_message h (\<lambda>stream messageId startId. messageId)
                             stream [(i, fs)] fr))
          = snd (ConsumerService_processMessage h (this fr) stream i fs (env fr)))"
proof (intro conjI allI impI)
  show "cursor (vars (outcome_state
      (ConsumerService_startConsuming h streamName startId batchSize pollInterval ticks svc w)))
     = last (startId # map snd (dispatched (vars (outcome_state
         (ConsumerService_startConsuming h streamName startId batchSize pollInterval ticks svc w)))))"
    using startConsuming_follows_dispatch [of startId h streamName batchSize pollInterval ticks svc w]
    by (simp add: follows_dispatch_def)
next
  fix fr :: "(consumer_service, msg_id run_vars) frame" and stream i fs
  assume new: "i \<notin> processedMessages (this fr)"
  let ?run = "ConsumerService_each_message h (\<lambda>stream messageId startId. messageId) stream [(i, fs)] fr"
  have "?run = ConsumerService_each_message h (\<lambda>stream messageId startId. messageId) stream []
        (dispatch_step (\<lambda>stream messageId startId. messageId) stream i
          (snd (ConsumerService_processMessage h (this fr) stream i fs (env fr))) fr)"
    by (rule ConsumerService_each_message_new [of "(i, fs)" fr h "\<lambda>stream messageId startId. messageId"
          stream "[]", unfolded fst_conv snd_conv, OF new])
  then have run: "?run = (Inr (), dispatch_step (\<lambda>stream messageId startId. messageId) stream i
        (snd (ConsumerService_processMessage h (this fr) stream i fs (env fr))) fr)"
    by (simp only: ConsumerService_each_message.simps)
  show "fst ?run = Inr ()" unfolding run by simp
  show "cursor (vars (snd ?run)) = i" unfolding run by (simp add: dispatch_step_def)
  show "dispatched (vars (snd ?run)) = dispatched (vars fr) @ [(stream, i)]"
    unfolding run by (simp add: dispatch_step_def)
  show "env (snd ?run) = snd (ConsumerService_processMessage h (this fr) stream i fs (env fr))"
    unfolding run by (simp add: dispatch_step_def)
qed


theorem cursor_follows_every_dispatched_message_witness:
  "dispatched (vars (outcome_state (ConsumerService_startConsuming demo_host ''user:events'' (0, 0) 5 1000
      [stop_tick] example_consumer unparsable_world))) = [(''user:events'', (1000, 0))] \<and>
   cursor (vars (outcome_state (ConsumerService_startConsuming demo_host ''user:events'' (0, 0) 5 1000
      [stop_tick] example_consumer unparsable_world))) = (1000, 0) \<and>
   (1000, 0) \<notin> processedMessages (this (ConsumerService_enter example_consumer (0, 0) unparsable_world)) \<and>
   cursor (vars (snd (ConsumerService_each_message demo_host (\<lambda>stream messageId startId. messageId)
      ''user:events'' [((1000, 0), [''eventType'', ''user.created'', ''payload'', ''{oops''])]
      (ConsumerService_enter example_consumer (0, 0) unparsable_world)))) = (1000, 0)"
proof -
  let ?run = "ConsumerService_startConsuming demo_host ''user:events'' (0, 0) 5 1000
      [stop_tick] example_consumer unparsable_world"
  let ?fr = "ConsumerService_enter example_consumer (0, 0) unparsable_world"
  note T = cursor_follows_every_dispatched_message [of demo_host "''user:events''" "(0, 0)" 5 1000
      "[stop_tick]" example_consumer unparsable_world]
  have d: "dispatched (vars (outcome_state ?run)) = [(''user:events'', (1000, 0))]"
    by (simp add: loop_defs step_defs world_defs)
  from T have "cursor (vars (outcome_state ?run))
      = last ((0, 0) # map snd (dispatched (vars (outcome_state ?run))))"
    by blast
  with d have c: "cursor (vars (outcome_state ?run)) = (1000, 0)" by simp
  have new: "(1000, 0) \<notin> processedMessages (this ?fr)"
    by (simp add: ConsumerService_enter_def example_consumer_def ConsumerService_def)
  from T new have s: "cursor (vars (snd (ConsumerService_each_message demo_host
      (\<lambda>stream messageId startId. messageId)
      ''user:events'' [((1000, 0), [''eventType'', ''user.created'', ''payload'', ''{oops''])] ?fr)))
      = (1000, 0)"
    by blast
  from d c new s show ?thesis by (intro conjI)
qed

text \<open>
  The claim as first stated, that the cursor is not advanced past a message whose
  handler fails, fails for an entry whose payload is not JSON: its handling throws, the
  error is logged, and the cursor is on its id when the loop exits.
\<close>

theorem cursor_advances_past_failed_message_counterexample:
  "fst (ConsumerService_handle demo_host example_consumer ''user:events'' (1000, 0)
          [''eventType'', ''user.created'', ''payload'', ''{oops'', ''timestamp'', ''1000'', ''id'', ''uuid-0'']
          (log_to (Starting ''example-consumer'') unparsable_world))
     = Inl (SyntaxError ''Unexpected token in JSON'') \<and>
   console (env (outcome_state (ConsumerService_startConsuming demo_host ''user:events'' (0, 0) 5 1000
      [stop_tick] example_consumer unparsable_world)))
     = [Starting ''example-consumer'',
        ProcessingError (1000, 0) (SyntaxError ''Unexpected token in JSON''),
        Stopping ''example-consumer''] \<and>
   cursor (vars (outcome_state (ConsumerService_startConsuming demo_host ''user:events'' (0, 0) 5 1000
      [stop_tick] example_consumer unparsable_world))) = (1000, 0) \<and>
   processedMessages (this (outcome_state (ConsumerService_startConsuming demo_host ''user:events'' (0, 0)
      5 1000 [stop_tick] example_consumer unparsable_world))) = {(1000, 0)}"
  by (simp add: loop_defs step_defs world_defs)

section \<open>C8: what the delivery core does with the payload\<close>

lemma fst_xadd_fields: "fst (xadd s hint fs st) = fst (xadd s hint fs' st)"
  by (simp add: xadd_def Let_def split: option.splits)

lemma addToStream_xadd:
  "fst (addToStream h s t p hint w) = fst (xadd s hint (stream_fields h t p w) (redis w))"
  "redis (snd (addToStream h s t p hint w)) = snd (xadd s hint (stream_fields h t p w) (redis w))"
  by (cases "fst (xadd s hint (stream_fields h t p w) (redis w))";
      simp add: addToStream_def redis_call_simps stream_fields_def Let_def)+

lemma xadd_appends:
  "fst (xadd s hint fs st) = Inr i \<Longrightarrow>
   entries (get_log (snd (xadd s hint fs st)) s)
     = entries (get_log st s) @ [\<lparr>entry_id = i, entry_fields = fs\<rparr>]"
  by (auto simp: xadd_def Let_def get_log_def split: option.splits if_splits)

lemma addToStream_rest:
  "(snd (addToStream h s t p hint w))\<lparr>redis := r\<rparr> = (snd (addToStream h s t p' hint w))\<lparr>redis := r\<rparr>"
proof -
  have "fst (xadd s hint (stream_fields h t p w) (redis w))
      = fst (xadd s hint (stream_fields h t p' w) (redis w))"
    by (rule fst_xadd_fields)
  then show ?thesis
    by (cases "fst (xadd s hint (stream_fields h t p w) (redis w))";
        cases "fst (xadd s hint (stream_fields h t p' w) (redis w))")
       (simp_all add: addToStream_def redis_call_simps stream_fields_def Let_def log_to_def)
qed

lemma Event_create_saved:
  assumes "fst (Event_create i t p cid uid w) = Inr ()"
  shows "\<exists>ty. t = Some ty \<and>
     events (snd (Event_create i t p cid uid w))
       = events w @ [\<lparr>streamId = i, row_eventType = ty, row_payload = p, processed = False,
                       processedAt = None, row_consumerId = cid, userId = uid, row_error = None\<rparr>]"
proof (cases t)
  case None
  with assms show ?thesis by (simp add: Event_create_def)
next
  case (Some ty)
  let ?row = "\<lparr>streamId = i, row_eventType = ty, row_payload = p, processed = False,
               processedAt = None, row_consumerId = cid, userId = uid, row_error = None\<rparr>"
  show ?thesis
  proof (cases "p = JNull")
    case True
    with assms Some show ?thesis by (simp add: Event_create_def)
  next
    case False
    show ?thesis
    proof (cases "db_rejects w ?row")
      case None
      with Some False show ?thesis by (simp add: Event_create_def Let_def)
    next
      case (Some msg)
      with assms \<open>t = Some ty\<close> False show ?thesis by (simp add: Event_create_def Let_def)
    qed
  qed
qed

lemma saveEventToDatabase_saved:
  assumes "fst (saveEventToDatabase cid s i t p w) = Inr ()"
  shows "\<exists>ty. t = Some ty \<and>
     events (snd (saveEventToDatabase cid s i t p w))
       = events w @ [\<lparr>streamId = i, row_eventType = ty, row_payload = p, processed = False,
                       processedAt = None, row_consumerId = cid, userId = userId_of p,
                       row_error = None\<rparr>]"
proof (cases "get_prop p ''userId''")
  case (Inl e)
  with assms show ?thesis by (simp add: saveEventToDatabase_def)
next
  case (Inr u)
  have uid: "(case u of None \<Rightarrow> None | Some v \<Rightarrow> if truthy v then Some v else None) = userId_of p"
    using Inr by (simp add: userId_of_def split: option.splits)
  let ?create = "Event_create i t p cid (userId_of p) w"
  have run: "saveEventToDatabase cid s i t p w
      = try_catch ?create (\<lambda>error w1. (Inl error, log_to (SaveError error) w1))"
    using Inr by (simp add: saveEventToDatabase_def Let_def uid)
  with assms have ok: "fst ?create = Inr ()"
    by (cases ?create; cases "fst ?create") auto
  then have "snd (saveEventToDatabase cid s i t p w) = snd ?create"
    unfolding run by (cases ?create) auto
  with Event_create_saved [OF ok] show ?thesis by simp
qed

text \<open>
  C8 (as amended). The producer's append path treats the payload as opaque:
  \<open>addToStream\<close> only serializes it into the \<open>payload\<close> field of the entry, and the
  outcome of the append, the assigned entry id and everything else the call leaves
  behind are the same for any two payloads. The consumer's delivery path deserializes
  the payload and stores it in the audit record as it is, but it also reads the
  payload's \<open>userId\<close> property and stores it in the record's \<open>userId\<close> column.
\<close>

theorem payload_is_serialized_and_userId_read:
  "fst (addToStream h s t p hint w) = fst (addToStream h s t p' hint w) \<and>
   (snd (addToStream h s t p hint w))\<lparr>redis := r\<rparr> = (snd (addToStream h s t p' hint w))\<lparr>redis := r\<rparr> \<and>
   (\<forall>i. fst (addToStream h s t p hint w) = Inr i \<longrightarrow>
      entries (get_log (redis (snd (addToStream h s t p hint w))) s)
        = entries (get_log (redis w) s) @
            [\<lparr>entry_id = i,
              entry_fields = [''eventType'', t, ''payload'', JSON_stringify h p,
                              ''timestamp'', show_nat (clock w), ''id'', uuidv4 h (uuid_counter w)]\<rparr>]) \<and>
   (fst (saveEventToDatabase cid s m ty p w) = Inr () \<longrightarrow>
      (\<exists>known. ty = Some known \<and>
         events (snd (saveEventToDatabase cid s m ty p w))
           = events w @ [\<lparr>streamId = m, row_eventType = known, row_payload = p, processed = False,
                           processedAt = None, row_consumerId = cid, userId = userId_of p,
                           row_error = None\<rparr>]))"
proof (intro conjI allI impI)
  show "fst (addToStream h s t p hint w) = fst (addToStream h s t p' hint w)"
    unfolding addToStream_xadd by (rule fst_xadd_fields)
  show "(snd (addToStream h s t p hint w))\<lparr>redis := r\<rparr> = (snd (addToStream h s t p' hint w))\<lparr>redis := r\<rparr>"
    by (rule addToStream_rest)
next
  fix i assume "fst (addToStream h s t p hint w) = Inr i"
  then have "fst (xadd s hint (stream_fields h t p w) (redis w)) = Inr i"
    by (simp only: addToStream_xadd)
  from xadd_appends [OF this]
  show "entries (get_log (redis (snd (addToStream h s t p hint w))) s)
        = entries (get_log (redis w) s) @
            [\<lparr>entry_id = i,
              entry_fields = [''eventType'', t, ''payload'', JSON_stringify h p,
                              ''timestamp'', show_nat (clock w), ''id'', uuidv4 h (uuid_counter w)]\<rparr>]"
    by (simp only: addToStream_xadd stream_fields_def)
next
  assume "fst (saveEventToDatabase cid s m ty p w) = Inr ()"
  then show "\<exists>known. ty = Some known \<and>
         events (snd (saveEventToDatabase cid s m ty p w))
           = events w @ [\<lparr>streamId = m, row_eventType = known, row_payload = p, processed = False,
                           processedAt = None, row_consumerId = cid, userId = userId_of p,
                           row_error = None\<rparr>]"
    by (rule saveEventToDatabase_saved)
qed


theorem payload_is_serialized_and_userId_read_witness:
  "fst (addToStream demo_host ''user:events'' ''user.created'' (JObj [(''userId'', JStr ''u1'')]) None fresh_world)
     = Inr (1000, 0) \<and>
   fst (addToStream demo_host ''user:events'' ''user.created'' (JObj []) None fresh_world) = Inr (1000, 0) \<and>
   entries (get_log (redis (snd (addToStream demo_host ''user:events'' ''user.created''
       (JObj [(''userId'', JStr ''u1'')]) None fresh_world))) ''user:events'')
     = [\<lparr>entry_id = (1000, 0),
         entry_fields = [''eventType'', ''user.created'', ''payload'', ''{\"userId\":\"u1\"}'',
                         ''timestamp'', ''1000'', ''id'', ''uuid-0'']\<rparr>] \<and>
   fst (saveEventToDatabase ''example-consumer'' ''user:events'' (1000, 0) (Some ''user.created'')
          (JObj [(''userId'', JStr ''u1'')]) fresh_world) = Inr () \<and>
   events (snd (saveEventToDatabase ''example-consumer'' ''user:events'' (1000, 0) (Some ''user.created'')
          (JObj [(''userId'', JStr ''u1'')]) fresh_world))
     = [\<lparr>streamId = (1000, 0), row_eventType = ''user.created'',
         row_payload = JObj [(''userId'', JStr ''u1'')], processed = False, processedAt = None,
         row_consumerId = ''example-consumer'', userId = Some (JStr ''u1''), row_error = None\<rparr>]"
proof -
  let ?p = "JObj [(''userId'', JStr ''u1'')]"
  note T = payload_is_serialized_and_userId_read [where h = demo_host and s = "''user:events''"
      and t = "''user.created''" and p = ?p and p' = "JObj []" and hint = None and w = fresh_world
      and cid = "''example-consumer''" and m = "(1000, 0)" and ty = "Some ''user.created''"]
  have a: "fst (addToStream demo_host ''user:events'' ''user.created'' ?p None fresh_world) = Inr (1000, 0)"
    by (simp add: producer_defs)
  with T have a': "fst (addToStream demo_host ''user:events'' ''user.created'' (JObj []) None fresh_world)
      = Inr (1000, 0)"
    by simp
  from T a have "entries (get_log (redis (snd (addToStream demo_host ''user:events'' ''user.created''
       ?p None fresh_world))) ''user:events'')
     = entries (get_log (redis fresh_world) ''user:events'') @
         [\<lparr>entry_id = (1000, 0),
           entry_fields = [''eventType'', ''user.created'', ''payload'', JSON_stringify demo_host ?p,
                           ''timestamp'', show_nat (clock fresh_world),
                           ''id'', uuidv4 demo_host (uuid_counter fresh_world)]\<rparr>]"
    by blast
  then have b: "entries (get_log (redis (snd (addToStream demo_host ''user:events'' ''user.created''
       ?p None fresh_world))) ''user:events'')
     = [\<lparr>entry_id = (1000, 0),
         entry_fields = [''eventType'', ''user.created'', ''payload'', ''{\"userId\":\"u1\"}'',
                         ''timestamp'', ''1000'', ''id'', ''uuid-0'']\<rparr>]"
    by (simp add: producer_defs)
  have c: "fst (saveEventToDatabase ''example-consumer'' ''user:events'' (1000, 0) (Some ''user.created'')
          ?p fresh_world) = Inr ()"
    by (simp add: step_defs world_defs)
  with T have "\<exists>known. Some ''user.created'' = Some known \<and>
      events (snd (saveEventToDatabase ''example-consumer'' ''user:events'' (1000, 0) (Some ''user.created'')
          ?p fresh_world))
     = events fresh_world @ [\<lparr>streamId = (1000, 0), row_eventType = known,
         row_payload = ?p, processed = False, processedAt = None,
         row_consumerId = ''example-consumer'', userId = userId_of ?p, row_error = None\<rparr>]"
    by blast
  then have d: "events (snd (saveEventToDatabase ''example-consumer'' ''user:events'' (1000, 0)
          (Some ''user.created'') ?p fresh_world))
     = [\<lparr>streamId = (1000, 0), row_eventType = ''user.created'',
         row_payload = ?p, processed = False, processedAt = None,
         row_consumerId = ''example-consumer'', userId = Some (JStr ''u1''), row_error = None\<rparr>]"
    by (auto simp: userId_of_def fresh_world_def)
  from a a' b c d show ?thesis by (intro conjI)
qed

text \<open>
  The claim as first stated, that nothing stored but the payload itself and no behaviour
  depend on the payload's contents, fails in the consumer: two messages that differ only
  in the payload's \<open>userId\<close> leave audit records with different \<open>userId\<close> columns, and
  the payload \<open>null\<close> makes \<open>saveEventToDatabase\<close> throw where \<open>{}\<close> is saved and
  processed.
\<close>

theorem payload_contents_reach_audit_row_counterexample:
  "map userId (events (snd (ConsumerService_processMessage demo_host example_consumer ''user:events''
      (1000, 0) [''eventType'', ''user.created'', ''payload'', ''{\"userId\":\"u1\"}''] fresh_world)))
     = [Some (JStr ''u1'')] \<and>
   map userId (events (snd (ConsumerService_processMessage demo_host example_consumer ''user:events''
      (1000, 0) [''eventType'', ''user.created'', ''payload'', ''{\"userId\":\"u2\"}''] fresh_world)))
     = [Some (JStr ''u2'')] \<and>
   map processed (events (snd (ConsumerService_processMessage demo_host example_consumer ''user:events''
      (1000, 0) [''eventType'', ''user.created'', ''payload'', ''{}''] fresh_world))) = [True] \<and>
   events (snd (ConsumerService_processMessage demo_host example_consumer ''user:events''
      (1000, 0) [''eventType'', ''user.created'', ''payload'', ''null''] fresh_world)) = [] \<and>
   fst (saveEventToDatabase ''example-consumer'' ''user:events'' (1000, 0) (Some ''user.created'')
          JNull fresh_world)
     = Inl (TypeError ''Cannot read properties of null (reading userId)'')"
  by (simp add: loop_defs step_defs world_defs)

end
